theory Spec2Isabelle
  imports Complex_Main "HOL-Library.AList"
begin

section \<open>Data model (types.ts)\<close>

text \<open>
  A TypeScript \<open>number\<close> that holds a length is modelled as a \<open>real\<close>, without NaN
  and the infinities. The dimension engine and the first copy of the packer are read in
  exact arithmetic; the grid-unit functions and the second copy of the packer write out
  the rounding of IEEE doubles after every operation. A \<open>number\<close> that
  holds a count (a quantity, a grid unit count, an index) is an \<open>int\<close> or a \<open>nat\<close>.
  Record fields keep the names of the interfaces; a field whose name is shared by several
  interfaces, or clashes with a constant of HOL, carries a short prefix.
\<close>

datatype Unit = Inches | Cm

record Dimensions =
  dim_width :: real
  dim_height :: real
  dim_depth :: real

datatype DrawerStyle = Overlay | Inset

datatype DrawerHeightMode = Gridfinity | Direct

datatype DrawerBoxConstruction = Dado | ButtThroughSides | ButtThroughBottom

record WoodThickness =
  wt_id :: string
  nominal :: string
  actual :: real
  material :: string

record SlideSpec =
  slide_length :: real
  clearancePerSide :: real
  minMountingHeight :: real

record HorizontalRailConfig =
  enabled :: bool
  rail_thickness :: WoodThickness
  rail_width :: real

record WoodAssignments =
  carcassTopBottom :: WoodThickness
  carcassSides :: WoodThickness
  carcassDividers :: WoodThickness
  carcassBack :: WoodThickness
  wa_horizontalRails :: WoodThickness
  drawerSides :: WoodThickness
  drawerFrontBack :: WoodThickness
  drawerBottom :: WoodThickness
  drawerFace :: WoodThickness

record DrawerWoodOverride =
  ov_sides :: "WoodThickness option"
  ov_frontBack :: "WoodThickness option"
  ov_bottom :: "WoodThickness option"
  ov_face :: "WoodThickness option"

record DrawerRow =
  row_id :: string
  openingHeight :: real
  binHeightUnits :: int
  heightMode :: "DrawerHeightMode option"
  construction :: DrawerBoxConstruction
  woodOverride :: "DrawerWoodOverride option"

record Column =
  col_id :: string
  openingWidth :: real
  gridWidthUnits :: int
  rows :: "DrawerRow list"

record ChestConfig =
  name :: string
  unit :: Unit
  constraints :: "Dimensions option"
  columns :: "Column list"
  drawerStyle :: DrawerStyle
  defaultConstruction :: DrawerBoxConstruction
  defaultRowHeight :: real
  defaultGridWidthUnits :: int
  defaultBinHeightUnits :: int
  woodAssignments :: WoodAssignments
  advancedWoodMode :: bool
  slideSpec :: SlideSpec
  horizontalRails :: HorizontalRailConfig
  kerfWidth :: real
  dadoGrooveDepth :: real
  dadoGrooveOffset :: real
  overlayOverlap :: real
  insetRevealGap :: real
  drawerVerticalClearance :: real
  drawerBackClearance :: real

datatype DimensionTag = DimWidth | DimHeight | DimDepth

record ConstraintViolation =
  dimension :: DimensionTag
  cv_actual :: real
  cv_max :: real

record CarcassDimensions =
  outerWidth :: real
  outerHeight :: real
  outerDepth :: real
  innerWidth :: real
  innerDepth :: real
  constraintViolations :: "ConstraintViolation list"

datatype WarningType = SlideHeight | SlideLength | NegativeDimension

text \<open>
  A \<open>DrawerWarning\<close> is a type tag and a message. The message is display text built
  by printing numbers; only the tag is kept.
\<close>

record DrawerWarning =
  warning_type :: WarningType

record DrawerBoxDimensions =
  rowId :: string
  columnId :: string
  boxOuterWidth :: real
  boxOuterHeight :: real
  boxOuterDepth :: real
  usableInteriorWidth :: real
  usableInteriorHeight :: real
  usableInteriorDepth :: real
  sideLength :: real
  sideHeight :: real
  frontBackLength :: real
  frontBackHeight :: real
  bottomWidth :: real
  bottomDepth :: real
  faceWidth :: real
  faceHeight :: real
  warnings :: "DrawerWarning list"

record CutPiece =
  piece_id :: string
  label :: string
  width :: real
  height :: real
  thickness :: WoodThickness
  quantity :: int

record StockSheet =
  sheet_id :: string
  sheet_label :: string
  sheet_width :: real
  sheet_height :: real
  sheet_thickness :: WoodThickness

record PlacedPiece =
  placed_piece :: CutPiece
  placed_x :: real
  placed_y :: real
  rotated :: bool

text \<open>
  \<open>wastePercentage\<close> divides by the sheet's area: for a sheet of area zero JavaScript
  yields NaN or an infinity, which is \<open>None\<close> here.
\<close>

record SheetLayout =
  layout_sheet :: StockSheet
  placements :: "PlacedPiece list"
  wastePercentage :: "real option"
  usedArea :: real
  totalArea :: real

section \<open>Double arithmetic\<close>

text \<open>
  \<open>fl\<close> rounds a real to the nearest IEEE 754 binary64 number, ties to even: 53
  significant bits in the normal range, multiples of \<open>2 ^ -1074\<close> below it. The source
  computes \<open>fl (a + b)\<close> where it writes \<open>a + b\<close>, and so for the other operations.
  Overflow to an infinity (results of \<open>2 ^ 1024\<close> and more) is not modelled.
  \<open>dyadic j x\<close> says that \<open>x\<close> is an integer multiple of \<open>2 ^ -j\<close>.
\<close>

definition pow2 :: "int \<Rightarrow> real" where
  "pow2 z = (if 0 \<le> z then 2 ^ nat z else 1 / 2 ^ nat (- z))"

definition roundHalfEven :: "real \<Rightarrow> int" where
  "roundHalfEven x =
     (let f = \<lfloor>x\<rfloor>; d = x - of_int f
      in if d < 1 / 2 then f
         else if 1 / 2 < d then f + 1
         else if even f then f else f + 1)"

definition binaryExponent :: "real \<Rightarrow> int" where
  "binaryExponent x = \<lfloor>log 2 \<bar>x\<bar>\<rfloor>"

definition fl :: "real \<Rightarrow> real" where
  "fl x =
     (if x = 0 then 0
      else (let q = max (binaryExponent x - 52) (- 1074)
            in of_int (roundHalfEven (x / pow2 q)) * pow2 q))"

definition dyadic :: "nat \<Rightarrow> real \<Rightarrow> bool" where
  "dyadic j x = (of_int \<lfloor>x * 2 ^ j\<rfloor> = x * 2 ^ j)"

section \<open>Grid units (calculations/gridfinity.ts)\<close>

text \<open>
  The grid-unit functions in double arithmetic. \<open>MM_PER_INCH\<close> is the double that the
  literal \<open>25.4\<close> denotes. In \<open>roundUpToNearestEighth\<close> the product and the quotient
  by 8 are exact in doubles, as is \<open>Math.ceil\<close>. \<open>interiorWidthMm\<close> is the interior
  width in millimetres as store.ts and the repository's test compute it from an opening
  width: \<open>toMm(opening - 2 * clearance - 2 * sideThickness, "inches")\<close>.
\<close>

definition GRID_UNIT_MM :: real where
  "GRID_UNIT_MM = 42"

definition MM_PER_INCH :: real where
  "MM_PER_INCH = fl 25.4"

definition toMm :: "real \<Rightarrow> Unit \<Rightarrow> real" where
  "toMm v u = (if u = Inches then fl (v * MM_PER_INCH) else fl (v * 10))"

definition gridfinityGridUnits :: "real \<Rightarrow> int" where
  "gridfinityGridUnits dimensionMm = \<lfloor>fl (dimensionMm / GRID_UNIT_MM)\<rfloor>"

definition roundUpToNearestEighth :: "real \<Rightarrow> real" where
  "roundUpToNearestEighth inches = of_int \<lceil>inches * 8\<rceil> / 8"

definition openingWidthForGridUnits :: "int \<Rightarrow> real \<Rightarrow> real \<Rightarrow> real" where
  "openingWidthForGridUnits gridUnits drawerSideThickness clearance =
     (let minInteriorMm = fl (of_int gridUnits * GRID_UNIT_MM);
          minInteriorInches = fl (minInteriorMm / MM_PER_INCH)
      in roundUpToNearestEighth
           (fl (fl (minInteriorInches + fl (2 * drawerSideThickness)) + fl (2 * clearance))))"

definition interiorWidthMm :: "real \<Rightarrow> real \<Rightarrow> real \<Rightarrow> real" where
  "interiorWidthMm opening sideThickness clearance =
     toMm (fl (fl (opening - fl (2 * clearance)) - fl (2 * sideThickness))) Inches"

section \<open>Carcass sizing (calculations/carcass.ts)\<close>

definition getColumnInnerHeight :: "Column \<Rightarrow> ChestConfig \<Rightarrow> real" where
  "getColumnInnerHeight column config =
     (let totalRowHeight = foldl (\<lambda>sum row. sum + openingHeight row) 0 (rows column)
      in if \<not> enabled (horizontalRails config) \<or> length (rows column) \<le> 1
         then totalRowHeight
         else
           (let railCount = int (length (rows column)) - 1;
                railThickness = actual (rail_thickness (horizontalRails config))
            in totalRowHeight + of_int railCount * railThickness))"

text \<open>
  \<open>checkConstraintViolations\<close>: the loop over width, height, depth, in that order,
  pushes one record for each outer dimension strictly above its maximum.
\<close>

definition checkConstraintViolations ::
  "Dimensions \<Rightarrow> Dimensions option \<Rightarrow> ConstraintViolation list" where
  "checkConstraintViolations outer cs =
     (case cs of
        None \<Rightarrow> []
      | Some c \<Rightarrow>
          concat (map (\<lambda>(tag, get).
              if get outer > get c
              then [\<lparr>dimension = tag, cv_actual = get outer, cv_max = get c\<rparr>]
              else [])
            [(DimWidth, dim_width), (DimHeight, dim_height), (DimDepth, dim_depth)]))"

text \<open>
  \<open>Math.max(...xs)\<close> of a non-empty list. Of the empty list JavaScript returns
  \<open>-Infinity\<close>, which no real stands for: that is \<open>None\<close>.
\<close>

definition Math_max :: "real list \<Rightarrow> real option" where
  "Math_max xs = (case xs of [] \<Rightarrow> None | y # ys \<Rightarrow> Some (foldl max y ys))"

text \<open>
  \<open>calculateCarcassDimensions\<close> is \<open>None\<close> exactly for a configuration with no
  column, where the source computes an outer height of \<open>-Infinity\<close>.
\<close>

definition calculateCarcassDimensions :: "ChestConfig \<Rightarrow> CarcassDimensions option" where
  "calculateCarcassDimensions config =
     (let sideThickness = actual (carcassSides (woodAssignments config));
          topBottomThickness = actual (carcassTopBottom (woodAssignments config));
          dividerThickness = actual (carcassDividers (woodAssignments config));
          backThickness = actual (carcassBack (woodAssignments config));
          totalOpeningWidths = foldl (\<lambda>sum col. sum + openingWidth col) 0 (columns config);
          dividerCount = int (length (columns config)) - 1;
          innerWidth = totalOpeningWidths + of_int dividerCount * dividerThickness;
          outerWidth = sideThickness + innerWidth + sideThickness
      in case Math_max (map (\<lambda>col. getColumnInnerHeight col config) (columns config)) of
           None \<Rightarrow> None
         | Some carcassInnerHeight \<Rightarrow>
             (let outerHeight = topBottomThickness + carcassInnerHeight + topBottomThickness;
                  innerDepth = slide_length (slideSpec config) + drawerBackClearance config;
                  outerDepth = innerDepth + backThickness;
                  violations = checkConstraintViolations
                    \<lparr>dim_width = outerWidth, dim_height = outerHeight, dim_depth = outerDepth\<rparr>
                    (constraints config)
              in Some \<lparr>outerWidth = outerWidth, outerHeight = outerHeight,
                       outerDepth = outerDepth, innerWidth = innerWidth,
                       innerDepth = innerDepth, constraintViolations = violations\<rparr>))"

section \<open>Drawer box sizing (calculations/drawer.ts)\<close>

record DrawerWood =
  wood_sides :: WoodThickness
  wood_frontBack :: WoodThickness
  wood_bottom :: WoodThickness
  wood_face :: WoodThickness

text \<open>
  \<open>override?.sides ?? base.drawerSides\<close>: the override's field when the override is
  present and the field is set, the base assignment otherwise.
\<close>

definition orElse :: "DrawerWoodOverride option \<Rightarrow> (DrawerWoodOverride \<Rightarrow> WoodThickness option)
    \<Rightarrow> WoodThickness \<Rightarrow> WoodThickness" where
  "orElse ov field base =
     (case ov of
        None \<Rightarrow> base
      | Some v \<Rightarrow> (case field v of None \<Rightarrow> base | Some w \<Rightarrow> w))"

definition getDrawerWood :: "DrawerRow \<Rightarrow> ChestConfig \<Rightarrow> DrawerWood" where
  "getDrawerWood row config =
     (let base = woodAssignments config;
          ov = (if advancedWoodMode config then woodOverride row else None)
      in \<lparr>wood_sides = orElse ov ov_sides (drawerSides base),
          wood_frontBack = orElse ov ov_frontBack (drawerFrontBack base),
          wood_bottom = orElse ov ov_bottom (drawerBottom base),
          wood_face = orElse ov ov_face (drawerFace base)\<rparr>)"

record ConstructionResult =
  cr_sideHeight :: real
  cr_boxOuterHeight :: real
  cr_bottomWidth :: real
  cr_bottomDepth :: real
  cr_usableInteriorHeight :: real
  cr_usableInteriorDepth :: real

record BoxParams =
  bp_openingHeight :: real
  bp_verticalClearance :: real
  bp_boxOuterWidth :: real
  bp_boxOuterDepth :: real
  bp_sideThickness :: real
  bp_frontBackThickness :: real
  bp_bottomThickness :: real
  bp_dadoGrooveDepth :: real
  bp_dadoGrooveOffset :: real

definition calculateDadoResult :: "BoxParams \<Rightarrow> ConstructionResult" where
  "calculateDadoResult p =
     (let sideHeight = bp_openingHeight p - bp_verticalClearance p;
          frontBackLength = bp_boxOuterWidth p - 2 * bp_sideThickness p
      in \<lparr>cr_sideHeight = sideHeight,
          cr_boxOuterHeight = sideHeight,
          cr_bottomWidth = frontBackLength + 2 * bp_dadoGrooveDepth p,
          cr_bottomDepth =
            bp_boxOuterDepth p - 2 * bp_frontBackThickness p + 2 * bp_dadoGrooveDepth p,
          cr_usableInteriorHeight = sideHeight - bp_dadoGrooveOffset p - bp_bottomThickness p,
          cr_usableInteriorDepth = bp_boxOuterDepth p - 2 * bp_frontBackThickness p\<rparr>)"

definition calculateButtThroughSidesResult :: "BoxParams \<Rightarrow> ConstructionResult" where
  "calculateButtThroughSidesResult p =
     (let sideHeight = bp_openingHeight p - bp_verticalClearance p
      in \<lparr>cr_sideHeight = sideHeight,
          cr_boxOuterHeight = sideHeight,
          cr_bottomWidth = bp_boxOuterWidth p - 2 * bp_sideThickness p,
          cr_bottomDepth = bp_boxOuterDepth p - 2 * bp_frontBackThickness p,
          cr_usableInteriorHeight = sideHeight - bp_bottomThickness p,
          cr_usableInteriorDepth = bp_boxOuterDepth p - 2 * bp_frontBackThickness p\<rparr>)"

definition calculateButtThroughBottomResult :: "BoxParams \<Rightarrow> ConstructionResult" where
  "calculateButtThroughBottomResult p =
     (let sideHeight = bp_openingHeight p - bp_verticalClearance p - bp_bottomThickness p
      in \<lparr>cr_sideHeight = sideHeight,
          cr_boxOuterHeight = sideHeight + bp_bottomThickness p,
          cr_bottomWidth = bp_boxOuterWidth p,
          cr_bottomDepth = bp_boxOuterDepth p,
          cr_usableInteriorHeight = sideHeight,
          cr_usableInteriorDepth = bp_boxOuterDepth p - 2 * bp_frontBackThickness p\<rparr>)"

fun getConstructionStrategy :: "DrawerBoxConstruction \<Rightarrow> BoxParams \<Rightarrow> ConstructionResult" where
  "getConstructionStrategy Dado = calculateDadoResult"
| "getConstructionStrategy ButtThroughSides = calculateButtThroughSidesResult"
| "getConstructionStrategy ButtThroughBottom = calculateButtThroughBottomResult"

text \<open>
  \<open>collectWarnings\<close> pushes at most two warnings, in this order: \<open>slide-height\<close>
  and \<open>negative-dimension\<close>. No branch of it pushes \<open>slide-length\<close>.
\<close>

definition collectWarnings ::
  "DrawerBoxDimensions \<Rightarrow> ChestConfig \<Rightarrow> real \<Rightarrow> DrawerWarning list" where
  "collectWarnings dims config opening =
     (let w1 = (if opening < minMountingHeight (slideSpec config)
                then [\<lparr>warning_type = SlideHeight\<rparr>] else []);
          allDims = [boxOuterWidth dims, boxOuterHeight dims, boxOuterDepth dims,
                     bottomWidth dims, bottomDepth dims, sideHeight dims,
                     frontBackHeight dims, usableInteriorWidth dims,
                     usableInteriorHeight dims, usableInteriorDepth dims];
          w2 = (if list_ex (\<lambda>d. d \<le> 0) allDims
                then [\<lparr>warning_type = NegativeDimension\<rparr>] else [])
      in w1 @ w2)"

text \<open>\<open>Array.prototype.findIndex\<close>: the first index whose element passes, or -1.\<close>

fun findIndex :: "('a \<Rightarrow> bool) \<Rightarrow> 'a list \<Rightarrow> int" where
  "findIndex P [] = -1"
| "findIndex P (a # as) =
     (if P a then 0 else (let i = findIndex P as in if i < 0 then -1 else i + 1))"

definition findRowIndex :: "Column \<Rightarrow> DrawerRow \<Rightarrow> int" where
  "findRowIndex column row = findIndex (\<lambda>r. row_id r = row_id row) (rows column)"

definition findColumnIndex :: "ChestConfig \<Rightarrow> Column \<Rightarrow> int" where
  "findColumnIndex config column = findIndex (\<lambda>c. col_id c = col_id column) (columns config)"

definition calculateOverlayFaceWidth :: "Column \<Rightarrow> int \<Rightarrow> ChestConfig \<Rightarrow> real" where
  "calculateOverlayFaceWidth column columnIndex config =
     (let dividerThickness = actual (carcassDividers (woodAssignments config));
          reveal = insetRevealGap config
      in if length (columns config) = 1
         then (let sideThickness = actual (carcassSides (woodAssignments config))
               in openingWidth column + 2 * sideThickness - reveal)
         else openingWidth column + dividerThickness - reveal)"

definition calculateOverlayFaceHeight ::
  "DrawerRow \<Rightarrow> int \<Rightarrow> Column \<Rightarrow> ChestConfig \<Rightarrow> real" where
  "calculateOverlayFaceHeight row rowIndex column config =
     (let reveal = insetRevealGap config;
          railHeight = (if enabled (horizontalRails config)
                        then actual (rail_thickness (horizontalRails config)) else 0)
      in if length (rows column) = 1
         then openingHeight row - reveal
         else openingHeight row + railHeight - reveal)"

record FaceDimensions =
  face_width :: real
  face_height :: real

definition calculateFaceDimensions ::
  "DrawerRow \<Rightarrow> Column \<Rightarrow> int \<Rightarrow> int \<Rightarrow> ChestConfig \<Rightarrow> FaceDimensions" where
  "calculateFaceDimensions row column rowIndex columnIndex config =
     (if drawerStyle config = Inset
      then \<lparr>face_width = openingWidth column - 2 * insetRevealGap config,
            face_height = openingHeight row - 2 * insetRevealGap config\<rparr>
      else \<lparr>face_width = calculateOverlayFaceWidth column columnIndex config,
            face_height = calculateOverlayFaceHeight row rowIndex column config\<rparr>)"

definition calculateDrawerBox :: "DrawerRow \<Rightarrow> Column \<Rightarrow> ChestConfig \<Rightarrow> DrawerBoxDimensions" where
  "calculateDrawerBox row column config =
     (let wood = getDrawerWood row config;
          boxOuterWidth = openingWidth column - 2 * clearancePerSide (slideSpec config);
          boxOuterDepth = slide_length (slideSpec config);
          frontBackLength = boxOuterWidth - 2 * actual (wood_sides wood);
          params = \<lparr>bp_openingHeight = openingHeight row,
                    bp_verticalClearance = drawerVerticalClearance config,
                    bp_boxOuterWidth = boxOuterWidth,
                    bp_boxOuterDepth = boxOuterDepth,
                    bp_sideThickness = actual (wood_sides wood),
                    bp_frontBackThickness = actual (wood_frontBack wood),
                    bp_bottomThickness = actual (wood_bottom wood),
                    bp_dadoGrooveDepth = dadoGrooveDepth config,
                    bp_dadoGrooveOffset = dadoGrooveOffset config\<rparr>;
          result = getConstructionStrategy (construction row) params;
          face = calculateFaceDimensions row column (findRowIndex column row)
                   (findColumnIndex config column) config;
          dims = \<lparr>rowId = row_id row,
                  columnId = col_id column,
                  boxOuterWidth = boxOuterWidth,
                  boxOuterHeight = cr_boxOuterHeight result,
                  boxOuterDepth = boxOuterDepth,
                  usableInteriorWidth = boxOuterWidth - 2 * actual (wood_sides wood),
                  usableInteriorHeight = cr_usableInteriorHeight result,
                  usableInteriorDepth = cr_usableInteriorDepth result,
                  sideLength = boxOuterDepth,
                  sideHeight = cr_sideHeight result,
                  frontBackLength = frontBackLength,
                  frontBackHeight = cr_sideHeight result,
                  bottomWidth = roundUpToNearestEighth (cr_bottomWidth result),
                  bottomDepth = roundUpToNearestEighth (cr_bottomDepth result),
                  faceWidth = roundUpToNearestEighth (face_width face),
                  faceHeight = roundUpToNearestEighth (face_height face),
                  warnings = []\<rparr>
      in dims\<lparr>warnings := collectWarnings dims config (openingHeight row)\<rparr>)"

section \<open>Cut list (calculations/carcass.ts, drawer.ts, cutlist.ts)\<close>

text \<open>\<open>String(i)\<close> of an array index: its decimal digits.\<close>

fun numberToString :: "nat \<Rightarrow> string" where
  "numberToString n =
     (if n < 10 then [''0123456789'' ! n]
      else numberToString (n div 10) @ [''0123456789'' ! (n mod 10)])"

declare numberToString.simps [simp del]

text \<open>
  The rail pieces of \<open>getCarcassPieces\<close>, from column index \<open>i\<close> on: one entry for
  each column with more than one row.
\<close>

fun railPieces :: "ChestConfig \<Rightarrow> nat \<Rightarrow> Column list \<Rightarrow> CutPiece list" where
  "railPieces config i [] = []"
| "railPieces config i (col # cols) =
     (let colRailCount = max 0 (int (length (rows col)) - 1)
      in (if colRailCount > 0
          then [\<lparr>piece_id = ''horizontal-rails-col-'' @ numberToString i,
                 label = (if length (columns config) > 1
                          then ''Horizontal Rail (Col '' @ numberToString (i + 1) @ '')''
                          else ''Horizontal Rail''),
                 width = openingWidth col,
                 height = rail_width (horizontalRails config),
                 thickness = rail_thickness (horizontalRails config),
                 quantity = colRailCount\<rparr>]
          else [])
         @ railPieces config (Suc i) cols)"

definition getCarcassPieces :: "ChestConfig \<Rightarrow> CarcassDimensions \<Rightarrow> CutPiece list" where
  "getCarcassPieces config carcass =
     (let wood = woodAssignments config;
          verticalPanelHeight = outerHeight carcass - actual (carcassTopBottom wood) * 2;
          dividerCount = int (length (columns config)) - 1
      in [\<lparr>piece_id = ''carcass-top'', label = ''Carcass Top'',
            width = innerWidth carcass, height = innerDepth carcass,
            thickness = carcassTopBottom wood, quantity = 1\<rparr>,
          \<lparr>piece_id = ''carcass-bottom'', label = ''Carcass Bottom'',
            width = innerWidth carcass, height = innerDepth carcass,
            thickness = carcassTopBottom wood, quantity = 1\<rparr>,
          \<lparr>piece_id = ''carcass-sides'', label = ''Carcass Side'',
            width = innerDepth carcass, height = verticalPanelHeight,
            thickness = carcassSides wood, quantity = 2\<rparr>]
         @ (if dividerCount > 0
            then [\<lparr>piece_id = ''carcass-dividers'', label = ''Vertical Divider'',
                   width = innerDepth carcass, height = verticalPanelHeight,
                   thickness = carcassDividers wood, quantity = dividerCount\<rparr>]
            else [])
         @ [\<lparr>piece_id = ''carcass-back'', label = ''Back Panel'',
              width = outerWidth carcass, height = outerHeight carcass,
              thickness = carcassBack wood, quantity = 1\<rparr>]
         @ (if enabled (horizontalRails config)
            then railPieces config 0 (columns config) else []))"

definition getDrawerPieces ::
  "DrawerBoxDimensions \<Rightarrow> DrawerRow \<Rightarrow> ChestConfig \<Rightarrow> CutPiece list" where
  "getDrawerPieces box row config =
     (let wood = getDrawerWood row config;
          prefix = columnId box @ ''-'' @ rowId box;
          title = ''Drawer '' @ columnId box @ ''-'' @ rowId box
      in [\<lparr>piece_id = prefix @ ''-side'', label = title @ '' Side'',
            width = sideLength box, height = sideHeight box,
            thickness = wood_sides wood, quantity = 2\<rparr>,
          \<lparr>piece_id = prefix @ ''-front'', label = title @ '' Front'',
            width = frontBackLength box, height = frontBackHeight box,
            thickness = wood_frontBack wood, quantity = 1\<rparr>,
          \<lparr>piece_id = prefix @ ''-back'', label = title @ '' Back'',
            width = frontBackLength box, height = frontBackHeight box,
            thickness = wood_frontBack wood, quantity = 1\<rparr>,
          \<lparr>piece_id = prefix @ ''-bottom'', label = title @ '' Bottom'',
            width = bottomWidth box, height = bottomDepth box,
            thickness = wood_bottom wood, quantity = 1\<rparr>,
          \<lparr>piece_id = prefix @ ''-face'', label = title @ '' Face'',
            width = faceWidth box, height = faceHeight box,
            thickness = wood_face wood, quantity = 1\<rparr>])"

text \<open>
  The key of the source is the string \<open>id|String(width)|String(height)\<close>. The texts of
  the two numbers contain no bar, so the three parts can be read back from the key, and
  \<open>String\<close> gives equal texts to equal numbers only: two keys are equal exactly
  when the thickness ids, the widths and the heights are. The key is modelled as that
  triple.
\<close>

type_synonym PieceKey = "string \<times> real \<times> real"

definition pieceKey :: "CutPiece \<Rightarrow> PieceKey" where
  "pieceKey piece = (wt_id (thickness piece), width piece, height piece)"

text \<open>
  The \<open>Map\<close> of \<open>aggregateCutPieces\<close> is an association list in insertion order.
  An existing entry has its quantity increased in place; a new key is appended with a
  copy of the piece.
\<close>

definition mergeStep :: "(PieceKey \<times> CutPiece) list \<Rightarrow> CutPiece \<Rightarrow> (PieceKey \<times> CutPiece) list" where
  "mergeStep merged piece =
     (let key = pieceKey piece
      in case map_of merged key of
           Some existing \<Rightarrow>
             AList.update key (existing\<lparr>quantity := quantity existing + quantity piece\<rparr>) merged
         | None \<Rightarrow> AList.update key piece merged)"

definition mergePieces :: "CutPiece list \<Rightarrow> CutPiece list" where
  "mergePieces allPieces = map snd (foldl mergeStep [] allPieces)"

text \<open>
  The local \<open>allPieces\<close> of \<open>aggregateCutPieces\<close>: the carcass pieces, then the
  pieces of every drawer, column by column and row by row.
\<close>

definition allPieces :: "ChestConfig \<Rightarrow> CarcassDimensions \<Rightarrow> CutPiece list" where
  "allPieces config carcass =
     getCarcassPieces config carcass
     @ concat (map (\<lambda>column.
         concat (map (\<lambda>row. getDrawerPieces (calculateDrawerBox row column config) row config)
                     (rows column)))
         (columns config))"

definition aggregateCutPieces :: "ChestConfig \<Rightarrow> CutPiece list option" where
  "aggregateCutPieces config =
     (case calculateCarcassDimensions config of
        None \<Rightarrow> None
      | Some carcass \<Rightarrow> Some (mergePieces (allPieces config carcass)))"

text \<open>
  The sum of the quantities of the pieces of one key, and the invariant of the merge
  loop: the keys of the map are distinct and are the keys seen so far, and each entry
  holds the summed quantity of its key.
\<close>

definition keyQuantity :: "PieceKey \<Rightarrow> CutPiece list \<Rightarrow> int" where
  "keyQuantity k ps = sum_list (map quantity (filter (\<lambda>q. pieceKey q = k) ps))"

definition mergeInv :: "(PieceKey \<times> CutPiece) list \<Rightarrow> CutPiece list \<Rightarrow> bool" where
  "mergeInv merged seen =
     (distinct (map fst merged)
      \<and> (\<forall>k. case map_of merged k of
                None \<Rightarrow> k \<notin> pieceKey ` set seen
              | Some v \<Rightarrow> pieceKey v = k \<and> k \<in> pieceKey ` set seen
                          \<and> quantity v = keyQuantity k seen))"

section \<open>Guillotine bin packing (calculations/bin-packing.ts)\<close>

text \<open>
  The packer in exact arithmetic. The section after this one gives it once more in
  double arithmetic.
\<close>

record FreeRect =
  rect_x :: real
  rect_y :: real
  rect_width :: real
  rect_height :: real

record FitResult =
  rectIndex :: nat
  fit_rotated :: bool
  leftover :: real

text \<open>\<open>best === null || leftover < best.leftover\<close>\<close>

definition improves :: "FitResult option \<Rightarrow> real \<Rightarrow> bool" where
  "improves best l = (case best of None \<Rightarrow> True | Some b \<Rightarrow> l < leftover b)"

text \<open>
  The loop of \<open>findBestFit\<close> from index \<open>i\<close> on, over the free rectangles not yet
  visited, with the best candidate so far. The kerf parameter of the source is unused
  there (\<open>_kerf\<close>), and its guard \<open>if (!rect) continue\<close> never fires for an index
  below the length of the array.
\<close>

fun findBestFitFrom ::
  "real \<Rightarrow> real \<Rightarrow> bool \<Rightarrow> nat \<Rightarrow> FreeRect list \<Rightarrow> FitResult option \<Rightarrow> FitResult option" where
  "findBestFitFrom pieceW pieceH allowRotation i [] best = best"
| "findBestFitFrom pieceW pieceH allowRotation i (rect # rest) best =
     (let l = rect_width rect * rect_height rect - pieceW * pieceH;
          best1 = (if pieceW \<le> rect_width rect \<and> pieceH \<le> rect_height rect \<and> improves best l
                   then Some \<lparr>rectIndex = i, fit_rotated = False, leftover = l\<rparr>
                   else best);
          best2 = (if allowRotation \<and> pieceH \<le> rect_width rect \<and> pieceW \<le> rect_height rect
                      \<and> improves best1 l
                   then Some \<lparr>rectIndex = i, fit_rotated = True, leftover = l\<rparr>
                   else best1)
      in findBestFitFrom pieceW pieceH allowRotation (Suc i) rest best2)"

definition findBestFit ::
  "real \<Rightarrow> real \<Rightarrow> real \<Rightarrow> FreeRect list \<Rightarrow> bool \<Rightarrow> FitResult option" where
  "findBestFit pieceW pieceH kerf freeRects allowRotation =
     findBestFitFrom pieceW pieceH allowRotation 0 freeRects None"

definition guillotineSplit :: "FreeRect \<Rightarrow> real \<Rightarrow> real \<Rightarrow> real \<Rightarrow> FreeRect list" where
  "guillotineSplit rect placedW placedH kerf =
     (let rightW = rect_width rect - placedW - kerf;
          bottomH = rect_height rect - placedH - kerf
      in if rightW \<le> 0 \<and> bottomH \<le> 0 then []
         else if rightW \<le> 0 then
           [\<lparr>rect_x = rect_x rect, rect_y = rect_y rect + placedH + kerf,
             rect_width = rect_width rect, rect_height = bottomH\<rparr>]
         else if bottomH \<le> 0 then
           [\<lparr>rect_x = rect_x rect + placedW + kerf, rect_y = rect_y rect,
             rect_width = rightW, rect_height = rect_height rect\<rparr>]
         else
           (let horizontalSplitLarger = max (rect_width rect * bottomH) (rightW * placedH);
                verticalSplitLarger = max (rightW * rect_height rect) (placedW * bottomH);
                result =
                  (if horizontalSplitLarger \<ge> verticalSplitLarger then
                     [\<lparr>rect_x = rect_x rect, rect_y = rect_y rect + placedH + kerf,
                       rect_width = rect_width rect, rect_height = bottomH\<rparr>,
                      \<lparr>rect_x = rect_x rect + placedW + kerf, rect_y = rect_y rect,
                       rect_width = rightW, rect_height = placedH\<rparr>]
                   else
                     [\<lparr>rect_x = rect_x rect + placedW + kerf, rect_y = rect_y rect,
                       rect_width = rightW, rect_height = rect_height rect\<rparr>,
                      \<lparr>rect_x = rect_x rect, rect_y = rect_y rect + placedH + kerf,
                       rect_width = placedW, rect_height = bottomH\<rparr>])
            in filter (\<lambda>r. rect_width r > 0 \<and> rect_height r > 0) result))"

record ExpandedPiece =
  ep_piece :: CutPiece
  ep_width :: real
  ep_height :: real

text \<open>
  The inner loop of \<open>expandPieces\<close> runs \<open>quantity\<close> times, and not at all for a
  quantity of zero or less.
\<close>

definition expandPieces :: "CutPiece list \<Rightarrow> ExpandedPiece list" where
  "expandPieces pieces =
     concat (map (\<lambda>piece. replicate (nat (quantity piece))
                    \<lparr>ep_piece = piece, ep_width = width piece, ep_height = height piece\<rparr>)
                 pieces)"

record FillResult =
  fr_placements :: "PlacedPiece list"
  fr_remaining :: "ExpandedPiece list"

text \<open>The three arrays that the loop of \<open>fillSheet\<close> mutates.\<close>

record FillState =
  freeRects :: "FreeRect list"
  st_placements :: "PlacedPiece list"
  st_remaining :: "ExpandedPiece list"

text \<open>
  One pass of the loop body of \<open>fillSheet\<close>. \<open>freeRects.splice(i, 1, ...new)\<close>
  replaces the rectangle at index \<open>i\<close> by the rectangles of the split. The guard
  \<open>if (!rect) continue\<close> skips the item when the index is out of range.
\<close>

definition fillStep :: "real \<Rightarrow> bool \<Rightarrow> FillState \<Rightarrow> ExpandedPiece \<Rightarrow> FillState" where
  "fillStep kerfW allowRotation st item =
     (case findBestFit (ep_width item) (ep_height item) kerfW (freeRects st) allowRotation of
        None \<Rightarrow> st\<lparr>st_remaining := st_remaining st @ [item]\<rparr>
      | Some fit \<Rightarrow>
          if rectIndex fit \<ge> length (freeRects st) then st
          else
            (let rect = freeRects st ! rectIndex fit;
                 placedW = (if fit_rotated fit then ep_height item else ep_width item);
                 placedH = (if fit_rotated fit then ep_width item else ep_height item)
             in st\<lparr>st_placements := st_placements st @
                      [\<lparr>placed_piece = ep_piece item, placed_x = rect_x rect,
                        placed_y = rect_y rect, rotated = fit_rotated fit\<rparr>],
                   freeRects := take (rectIndex fit) (freeRects st)
                      @ guillotineSplit rect placedW placedH kerfW
                      @ drop (Suc (rectIndex fit)) (freeRects st)\<rparr>))"

definition initialState :: "StockSheet \<Rightarrow> FillState" where
  "initialState sheet =
     \<lparr>freeRects = [\<lparr>rect_x = 0, rect_y = 0, rect_width = sheet_width sheet,
                     rect_height = sheet_height sheet\<rparr>],
      st_placements = [], st_remaining = []\<rparr>"

definition fillSheet :: "ExpandedPiece list \<Rightarrow> StockSheet \<Rightarrow> real \<Rightarrow> bool \<Rightarrow> FillResult" where
  "fillSheet items sheet kerfW allowRotation =
     (let st = foldl (fillStep kerfW allowRotation) (initialState sheet) items
      in \<lparr>fr_placements = st_placements st, fr_remaining = st_remaining st\<rparr>)"

definition placedWidth :: "PlacedPiece \<Rightarrow> real" where
  "placedWidth p = (if rotated p then height (placed_piece p) else width (placed_piece p))"

definition placedHeight :: "PlacedPiece \<Rightarrow> real" where
  "placedHeight p = (if rotated p then width (placed_piece p) else height (placed_piece p))"

definition buildLayout :: "StockSheet \<Rightarrow> PlacedPiece list \<Rightarrow> SheetLayout" where
  "buildLayout sheet ps =
     (let total = sheet_width sheet * sheet_height sheet;
          used = foldl (\<lambda>sum p. sum + placedWidth p * placedHeight p) 0 ps
      in \<lparr>layout_sheet = sheet, placements = ps,
          wastePercentage = (if total = 0 then None else Some ((total - used) / total * 100)),
          usedArea = used, totalArea = total\<rparr>)"

lemma foldl_fillStep_remaining_length:
  "length (st_remaining (foldl (fillStep k rot) st items))
     \<le> length (st_remaining st) + length items"
proof (induction items arbitrary: st)
  case Nil
  show ?case by simp
next
  case (Cons a items)
  have "length (st_remaining (fillStep k rot st a)) \<le> Suc (length (st_remaining st))"
    by (simp add: fillStep_def Let_def split: option.split)
  with Cons.IH [of "fillStep k rot st a"] show ?case by simp
qed

lemma fillSheet_remaining_length:
  "length (fr_remaining (fillSheet items sheet k rot)) \<le> length items"
  using foldl_fillStep_remaining_length [of k rot "initialState sheet" items]
  by (simp add: fillSheet_def Let_def initialState_def)

text \<open>
  The \<open>while\<close> loop of \<open>packPieces\<close>, with the layouts pushed so far. A pass that
  places nothing ends the loop, and so does a pass that leaves every item unplaced;
  otherwise the loop goes on with the strictly shorter list of remaining items.
\<close>

function packLoop ::
  "SheetLayout list \<Rightarrow> ExpandedPiece list \<Rightarrow> StockSheet \<Rightarrow> real \<Rightarrow> bool \<Rightarrow> SheetLayout list" where
  "packLoop layouts unplaced sheet kerfW allowRotation =
     (if length unplaced > 0 then
        (if length (fr_placements (fillSheet unplaced sheet kerfW allowRotation)) = 0
         then layouts
         else if length (fr_remaining (fillSheet unplaced sheet kerfW allowRotation))
                   = length unplaced
         then layouts @ [buildLayout sheet (fr_placements (fillSheet unplaced sheet kerfW allowRotation))]
         else packLoop
                (layouts @ [buildLayout sheet (fr_placements (fillSheet unplaced sheet kerfW allowRotation))])
                (fr_remaining (fillSheet unplaced sheet kerfW allowRotation))
                sheet kerfW allowRotation)
      else layouts)"
  by pat_completeness auto
termination
proof (relation "measure (\<lambda>(layouts, unplaced, sheet, k, rot). length unplaced)")
  show "wf (measure (\<lambda>(layouts, unplaced, sheet, k, rot). length unplaced))" by simp
next
  fix layouts :: "SheetLayout list" and unplaced sheet kerfW allowRotation
  assume "length (fr_remaining (fillSheet unplaced sheet kerfW allowRotation)) \<noteq> length unplaced"
  with fillSheet_remaining_length [of unplaced sheet kerfW allowRotation]
  show "((layouts @ [buildLayout sheet (fr_placements (fillSheet unplaced sheet kerfW allowRotation))],
          fr_remaining (fillSheet unplaced sheet kerfW allowRotation), sheet, kerfW, allowRotation),
         (layouts, unplaced, sheet, kerfW, allowRotation))
        \<in> measure (\<lambda>(layouts, unplaced, sheet, k, rot). length unplaced)"
    by simp
qed

declare packLoop.simps [simp del]

text \<open>
  \<open>expanded.sort((a, b) => b.width * b.height - a.width * a.height)\<close>: a stable sort
  by area, largest first.
\<close>

definition packPieces :: "CutPiece list \<Rightarrow> StockSheet \<Rightarrow> real \<Rightarrow> bool \<Rightarrow> SheetLayout list" where
  "packPieces pieces sheet kerfW allowRotation =
     (let expanded = sort_key (\<lambda>e. - (ep_width e * ep_height e)) (expandPieces pieces)
      in packLoop [] expanded sheet kerfW allowRotation)"

section \<open>Guillotine bin packing in double arithmetic\<close>

text \<open>
  The packer once more, with the rounding of every sum, difference and product that
  the source computes written out. Comparisons and \<open>Math.max\<close> do not round.
\<close>

fun findBestFitFromD ::
  "real \<Rightarrow> real \<Rightarrow> bool \<Rightarrow> nat \<Rightarrow> FreeRect list \<Rightarrow> FitResult option \<Rightarrow> FitResult option" where
  "findBestFitFromD pieceW pieceH allowRotation i [] best = best"
| "findBestFitFromD pieceW pieceH allowRotation i (rect # rest) best =
     (let l = fl (fl (rect_width rect * rect_height rect) - fl (pieceW * pieceH));
          best1 = (if pieceW \<le> rect_width rect \<and> pieceH \<le> rect_height rect \<and> improves best l
                   then Some \<lparr>rectIndex = i, fit_rotated = False, leftover = l\<rparr>
                   else best);
          best2 = (if allowRotation \<and> pieceH \<le> rect_width rect \<and> pieceW \<le> rect_height rect
                      \<and> improves best1 l
                   then Some \<lparr>rectIndex = i, fit_rotated = True, leftover = l\<rparr>
                   else best1)
      in findBestFitFromD pieceW pieceH allowRotation (Suc i) rest best2)"

definition findBestFitD ::
  "real \<Rightarrow> real \<Rightarrow> real \<Rightarrow> FreeRect list \<Rightarrow> bool \<Rightarrow> FitResult option" where
  "findBestFitD pieceW pieceH kerf rects allowRotation =
     findBestFitFromD pieceW pieceH allowRotation 0 rects None"

definition guillotineSplitD :: "FreeRect \<Rightarrow> real \<Rightarrow> real \<Rightarrow> real \<Rightarrow> FreeRect list" where
  "guillotineSplitD rect placedW placedH kerf =
     (let rightW = fl (fl (rect_width rect - placedW) - kerf);
          bottomH = fl (fl (rect_height rect - placedH) - kerf)
      in if rightW \<le> 0 \<and> bottomH \<le> 0 then []
         else if rightW \<le> 0 then
           [\<lparr>rect_x = rect_x rect, rect_y = fl (fl (rect_y rect + placedH) + kerf),
             rect_width = rect_width rect, rect_height = bottomH\<rparr>]
         else if bottomH \<le> 0 then
           [\<lparr>rect_x = fl (fl (rect_x rect + placedW) + kerf), rect_y = rect_y rect,
             rect_width = rightW, rect_height = rect_height rect\<rparr>]
         else
           (let horizontalSplitLarger =
                  max (fl (rect_width rect * bottomH)) (fl (rightW * placedH));
                verticalSplitLarger =
                  max (fl (rightW * rect_height rect)) (fl (placedW * bottomH));
                result =
                  (if horizontalSplitLarger \<ge> verticalSplitLarger then
                     [\<lparr>rect_x = rect_x rect, rect_y = fl (fl (rect_y rect + placedH) + kerf),
                       rect_width = rect_width rect, rect_height = bottomH\<rparr>,
                      \<lparr>rect_x = fl (fl (rect_x rect + placedW) + kerf), rect_y = rect_y rect,
                       rect_width = rightW, rect_height = placedH\<rparr>]
                   else
                     [\<lparr>rect_x = fl (fl (rect_x rect + placedW) + kerf), rect_y = rect_y rect,
                       rect_width = rightW, rect_height = rect_height rect\<rparr>,
                      \<lparr>rect_x = rect_x rect, rect_y = fl (fl (rect_y rect + placedH) + kerf),
                       rect_width = placedW, rect_height = bottomH\<rparr>])
            in filter (\<lambda>r. rect_width r > 0 \<and> rect_height r > 0) result))"

definition fillStepD :: "real \<Rightarrow> bool \<Rightarrow> FillState \<Rightarrow> ExpandedPiece \<Rightarrow> FillState" where
  "fillStepD kerfW allowRotation st item =
     (case findBestFitD (ep_width item) (ep_height item) kerfW (freeRects st) allowRotation of
        None \<Rightarrow> st\<lparr>st_remaining := st_remaining st @ [item]\<rparr>
      | Some fit \<Rightarrow>
          if rectIndex fit \<ge> length (freeRects st) then st
          else
            (let rect = freeRects st ! rectIndex fit;
                 placedW = (if fit_rotated fit then ep_height item else ep_width item);
                 placedH = (if fit_rotated fit then ep_width item else ep_height item)
             in st\<lparr>st_placements := st_placements st @
                      [\<lparr>placed_piece = ep_piece item, placed_x = rect_x rect,
                        placed_y = rect_y rect, rotated = fit_rotated fit\<rparr>],
                   freeRects := take (rectIndex fit) (freeRects st)
                      @ guillotineSplitD rect placedW placedH kerfW
                      @ drop (Suc (rectIndex fit)) (freeRects st)\<rparr>))"

definition fillSheetD :: "ExpandedPiece list \<Rightarrow> StockSheet \<Rightarrow> real \<Rightarrow> bool \<Rightarrow> FillResult" where
  "fillSheetD items sheet kerfW allowRotation =
     (let st = foldl (fillStepD kerfW allowRotation) (initialState sheet) items
      in \<lparr>fr_placements = st_placements st, fr_remaining = st_remaining st\<rparr>)"

definition buildLayoutD :: "StockSheet \<Rightarrow> PlacedPiece list \<Rightarrow> SheetLayout" where
  "buildLayoutD sheet ps =
     (let total = fl (sheet_width sheet * sheet_height sheet);
          used = foldl (\<lambda>sum p. fl (sum + fl (placedWidth p * placedHeight p))) 0 ps
      in \<lparr>layout_sheet = sheet, placements = ps,
          wastePercentage =
            (if total = 0 then None else Some (fl (fl (fl (total - used) / total) * 100))),
          usedArea = used, totalArea = total\<rparr>)"

lemma foldl_fillStepD_remaining_length:
  "length (st_remaining (foldl (fillStepD k rot) st items))
     \<le> length (st_remaining st) + length items"
proof (induction items arbitrary: st)
  case Nil
  show ?case by simp
next
  case (Cons a items)
  have "length (st_remaining (fillStepD k rot st a)) \<le> Suc (length (st_remaining st))"
    by (simp add: fillStepD_def Let_def split: option.split)
  with Cons.IH [of "fillStepD k rot st a"] show ?case by simp
qed

lemma fillSheetD_remaining_length:
  "length (fr_remaining (fillSheetD items sheet k rot)) \<le> length items"
  using foldl_fillStepD_remaining_length [of k rot "initialState sheet" items]
  by (simp add: fillSheetD_def Let_def initialState_def)

function packLoopD ::
  "SheetLayout list \<Rightarrow> ExpandedPiece list \<Rightarrow> StockSheet \<Rightarrow> real \<Rightarrow> bool \<Rightarrow> SheetLayout list" where
  "packLoopD layouts unplaced sheet kerfW allowRotation =
     (if length unplaced > 0 then
        (if length (fr_placements (fillSheetD unplaced sheet kerfW allowRotation)) = 0
         then layouts
         else if length (fr_remaining (fillSheetD unplaced sheet kerfW allowRotation))
                   = length unplaced
         then layouts @ [buildLayoutD sheet (fr_placements (fillSheetD unplaced sheet kerfW allowRotation))]
         else packLoopD
                (layouts @ [buildLayoutD sheet (fr_placements (fillSheetD unplaced sheet kerfW allowRotation))])
                (fr_remaining (fillSheetD unplaced sheet kerfW allowRotation))
                sheet kerfW allowRotation)
      else layouts)"
  by pat_completeness auto
termination
proof (relation "measure (\<lambda>(layouts, unplaced, sheet, k, rot). length unplaced)")
  show "wf (measure (\<lambda>(layouts, unplaced, sheet, k, rot). length unplaced))" by simp
next
  fix layouts :: "SheetLayout list" and unplaced sheet kerfW allowRotation
  assume "length (fr_remaining (fillSheetD unplaced sheet kerfW allowRotation)) \<noteq> length unplaced"
  with fillSheetD_remaining_length [of unplaced sheet kerfW allowRotation]
  show "((layouts @ [buildLayoutD sheet (fr_placements (fillSheetD unplaced sheet kerfW allowRotation))],
          fr_remaining (fillSheetD unplaced sheet kerfW allowRotation), sheet, kerfW, allowRotation),
         (layouts, unplaced, sheet, kerfW, allowRotation))
        \<in> measure (\<lambda>(layouts, unplaced, sheet, k, rot). length unplaced)"
    by simp
qed

declare packLoopD.simps [simp del]

text \<open>
  The comparator of the sort is the rounded difference of the two rounded areas; its
  sign is the sign of the difference of the rounded areas, so the stable sort orders by
  rounded area, largest first.
\<close>

definition packPiecesD :: "CutPiece list \<Rightarrow> StockSheet \<Rightarrow> real \<Rightarrow> bool \<Rightarrow> SheetLayout list" where
  "packPiecesD pieces sheet kerfW allowRotation =
     (let expanded = sort_key (\<lambda>e. - fl (ep_width e * ep_height e)) (expandPieces pieces)
      in packLoopD [] expanded sheet kerfW allowRotation)"

section \<open>Geometry of placements\<close>

text \<open>
  The footprint of a placed piece is the axis-aligned rectangle at its position, with the
  piece's width and height swapped when it is flagged as rotated (as \<open>buildLayout\<close>
  reads them). \<open>rectsOverlap\<close> is the overlap test of the repository's bin-packing
  test; two rectangles that do not overlap in this sense have disjoint interiors.
\<close>

definition footprint :: "PlacedPiece \<Rightarrow> FreeRect" where
  "footprint p = \<lparr>rect_x = placed_x p, rect_y = placed_y p,
                   rect_width = placedWidth p, rect_height = placedHeight p\<rparr>"

definition rectsOverlap :: "FreeRect \<Rightarrow> FreeRect \<Rightarrow> bool" where
  "rectsOverlap a b =
     (rect_x a < rect_x b + rect_width b \<and> rect_x a + rect_width a > rect_x b
      \<and> rect_y a < rect_y b + rect_height b \<and> rect_y a + rect_height a > rect_y b)"

definition rectInside :: "FreeRect \<Rightarrow> FreeRect \<Rightarrow> bool" where
  "rectInside outer r =
     (rect_x outer \<le> rect_x r \<and> rect_y outer \<le> rect_y r
      \<and> rect_x r + rect_width r \<le> rect_x outer + rect_width outer
      \<and> rect_y r + rect_height r \<le> rect_y outer + rect_height outer)"

definition sheetRect :: "StockSheet \<Rightarrow> FreeRect" where
  "sheetRect sheet = \<lparr>rect_x = 0, rect_y = 0, rect_width = sheet_width sheet,
                       rect_height = sheet_height sheet\<rparr>"

definition interior :: "FreeRect \<Rightarrow> (real \<times> real) set" where
  "interior r = {(a, b). rect_x r < a \<and> a < rect_x r + rect_width r
                      \<and> rect_y r < b \<and> b < rect_y r + rect_height r}"

definition fits :: "bool \<Rightarrow> real \<Rightarrow> real \<Rightarrow> FitResult \<Rightarrow> FreeRect \<Rightarrow> bool" where
  "fits rot w h fit r =
     (if fit_rotated fit then rot \<and> h \<le> rect_width r \<and> w \<le> rect_height r
      else w \<le> rect_width r \<and> h \<le> rect_height r)"

definition packInv :: "FreeRect \<Rightarrow> FillState \<Rightarrow> bool" where
  "packInv S st =
     ((\<forall>f \<in> set (freeRects st). rectInside S f)
      \<and> (\<forall>p \<in> set (st_placements st). rectInside S (footprint p))
      \<and> sorted_wrt (\<lambda>a b. \<not> rectsOverlap a b) (freeRects st)
      \<and> sorted_wrt (\<lambda>a b. \<not> rectsOverlap a b) (map footprint (st_placements st))
      \<and> (\<forall>f \<in> set (freeRects st). \<forall>p \<in> set (st_placements st).
            \<not> rectsOverlap (footprint p) f))"

text \<open>
  An expanded item as \<open>expandPieces\<close> builds it, with lengths that are not negative.
\<close>

definition wellFormedItem :: "ExpandedPiece \<Rightarrow> bool" where
  "wellFormedItem item =
     (0 \<le> ep_width item \<and> 0 \<le> ep_height item
      \<and> width (ep_piece item) = ep_width item \<and> height (ep_piece item) = ep_height item)"


definition layoutOK :: "StockSheet \<Rightarrow> SheetLayout \<Rightarrow> bool" where
  "layoutOK sheet layout =
     (layout_sheet layout = sheet
      \<and> list_all (\<lambda>p. rectInside (sheetRect sheet) (footprint p)) (placements layout)
      \<and> sorted_wrt (\<lambda>a b. \<not> rectsOverlap a b) (map footprint (placements layout)))"

text \<open>
  For the packer in double arithmetic: a rectangle with all four coordinates on the grid
  of the multiples of \<open>2 ^ -j\<close>, the guillotine split in exact arithmetic with the
  direction of the cut given, an item with lengths on the grid, and the invariant of the
  fill loop with all free rectangles on the grid.
\<close>

definition onGrid :: "nat \<Rightarrow> FreeRect \<Rightarrow> bool" where
  "onGrid j r = (dyadic j (rect_x r) \<and> dyadic j (rect_y r)
                 \<and> dyadic j (rect_width r) \<and> dyadic j (rect_height r))"

definition splitWith :: "bool \<Rightarrow> FreeRect \<Rightarrow> real \<Rightarrow> real \<Rightarrow> real \<Rightarrow> FreeRect list" where
  "splitWith horizontal rect placedW placedH kerf =
     (let rightW = rect_width rect - placedW - kerf;
          bottomH = rect_height rect - placedH - kerf
      in if rightW \<le> 0 \<and> bottomH \<le> 0 then []
         else if rightW \<le> 0 then
           [\<lparr>rect_x = rect_x rect, rect_y = rect_y rect + placedH + kerf,
             rect_width = rect_width rect, rect_height = bottomH\<rparr>]
         else if bottomH \<le> 0 then
           [\<lparr>rect_x = rect_x rect + placedW + kerf, rect_y = rect_y rect,
             rect_width = rightW, rect_height = rect_height rect\<rparr>]
         else filter (\<lambda>r. rect_width r > 0 \<and> rect_height r > 0)
           (if horizontal then
              [\<lparr>rect_x = rect_x rect, rect_y = rect_y rect + placedH + kerf,
                rect_width = rect_width rect, rect_height = bottomH\<rparr>,
               \<lparr>rect_x = rect_x rect + placedW + kerf, rect_y = rect_y rect,
                rect_width = rightW, rect_height = placedH\<rparr>]
            else
              [\<lparr>rect_x = rect_x rect + placedW + kerf, rect_y = rect_y rect,
                rect_width = rightW, rect_height = rect_height rect\<rparr>,
               \<lparr>rect_x = rect_x rect, rect_y = rect_y rect + placedH + kerf,
                rect_width = placedW, rect_height = bottomH\<rparr>]))"

definition gridItem :: "nat \<Rightarrow> ExpandedPiece \<Rightarrow> bool" where
  "gridItem j item = (wellFormedItem item \<and> dyadic j (ep_width item) \<and> dyadic j (ep_height item))"

definition gridInv :: "nat \<Rightarrow> StockSheet \<Rightarrow> FillState \<Rightarrow> bool" where
  "gridInv j sheet st =
     (packInv (sheetRect sheet) st \<and> (\<forall>f \<in> set (freeRects st). onGrid j f))"

section \<open>Concrete configurations\<close>

text \<open>
  The fixtures of the repository's unit tests (\<open>makeRow\<close>, \<open>makeColumn\<close>,
  \<open>makeConfig\<close> of drawer.test.ts), and the scenario of a single column with three
  rows of 6 inch openings.
\<close>

definition PLY_3_4 :: WoodThickness where
  "PLY_3_4 = \<lparr>wt_id = ''ply-3/4'', nominal = ''3/4 plywood'', actual = 0.71875, material = ''plywood''\<rparr>"
definition PLY_1_2 :: WoodThickness where
  "PLY_1_2 = \<lparr>wt_id = ''ply-1/2'', nominal = ''1/2 plywood'', actual = 0.46875, material = ''plywood''\<rparr>"
definition PLY_1_4 :: WoodThickness where
  "PLY_1_4 = \<lparr>wt_id = ''ply-1/4'', nominal = ''1/4 plywood'', actual = 0.25, material = ''plywood''\<rparr>"

definition makeRow :: "string \<Rightarrow> DrawerRow" where
  "makeRow i = \<lparr>row_id = i, openingHeight = 6, binHeightUnits = 4, heightMode = None,
     construction = Dado, woodOverride = None\<rparr>"

definition makeColumn :: "string \<Rightarrow> DrawerRow list \<Rightarrow> Column" where
  "makeColumn i rs = \<lparr>col_id = i, openingWidth = 14, gridWidthUnits = 7, rows = rs\<rparr>"

definition makeConfig :: "Column list \<Rightarrow> ChestConfig" where
  "makeConfig cols =
     \<lparr>name = ''Test Chest'', unit = Inches, constraints = None, columns = cols,
      drawerStyle = Overlay, defaultConstruction = Dado, defaultRowHeight = 6,
      defaultGridWidthUnits = 7, defaultBinHeightUnits = 4,
      woodAssignments = \<lparr>carcassTopBottom = PLY_3_4, carcassSides = PLY_3_4,
        carcassDividers = PLY_3_4, carcassBack = PLY_1_4, wa_horizontalRails = PLY_3_4,
        drawerSides = PLY_1_2, drawerFrontBack = PLY_1_2, drawerBottom = PLY_1_4,
        drawerFace = PLY_3_4\<rparr>,
      advancedWoodMode = False,
      slideSpec = \<lparr>slide_length = 18, clearancePerSide = 0.5, minMountingHeight = 1.75\<rparr>,
      horizontalRails = \<lparr>enabled = False, rail_thickness = PLY_3_4, rail_width = 3\<rparr>,
      kerfWidth = 0.125, dadoGrooveDepth = 0.25, dadoGrooveOffset = 0.375,
      overlayOverlap = 0.375, insetRevealGap = 0.0625, drawerVerticalClearance = 0.75,
      drawerBackClearance = 0.5\<rparr>"

definition scenarioConfig :: ChestConfig where
  "scenarioConfig = makeConfig [makeColumn ''col-1'' [makeRow ''r1'', makeRow ''r2'', makeRow ''r3'']]"

definition twoColumnConfig :: ChestConfig where
  "twoColumnConfig = makeConfig [makeColumn ''c1'' [makeRow ''r1''], makeColumn ''c2'' [makeRow ''r2'']]"

definition makeSheet :: "real \<Rightarrow> real \<Rightarrow> StockSheet" where
  "makeSheet w h = \<lparr>sheet_id = ''test-sheet'', sheet_label = ''sheet'', sheet_width = w,
     sheet_height = h, sheet_thickness = PLY_3_4\<rparr>"

definition makePiece :: "real \<Rightarrow> real \<Rightarrow> int \<Rightarrow> CutPiece" where
  "makePiece w h q = \<lparr>piece_id = ''piece'', label = ''Test Piece'', width = w, height = h,
     thickness = PLY_3_4, quantity = q\<rparr>"

definition scenarioCarcass :: CarcassDimensions where
  "scenarioCarcass = \<lparr>outerWidth = 15.4375, outerHeight = 19.4375, outerDepth = 18.75,
     innerWidth = 14, innerDepth = 18.5, constraintViolations = []\<rparr>"

text \<open>
  A chest whose single drawer has a direct opening height of 0.5 under a vertical
  clearance of 0.75: its drawer sides, front and back are 0.25 below zero in height.
\<close>

definition shallowConfig :: ChestConfig where
  "shallowConfig = makeConfig [makeColumn ''col-1'' [(makeRow ''r1'')\<lparr>openingHeight := 0.5\<rparr>]]"

section \<open>Carcass sizing: properties\<close>

text \<open>
  The inner height of a column as the specification words it: the sum of the row opening
  heights, plus one rail thickness per gap between rows only when horizontal rails are
  enabled and the column has more than one row.
\<close>

definition columnInnerHeightSpec :: "ChestConfig \<Rightarrow> Column \<Rightarrow> real" where
  "columnInnerHeightSpec config col =
     sum_list (map openingHeight (rows col)) +
     (if enabled (horizontalRails config) \<and> length (rows col) > 1
      then (real (length (rows col)) - 1) * actual (rail_thickness (horizontalRails config))
      else 0)"

lemma foldl_add_sum_list:
  "foldl (\<lambda>s a. s + f a) (z::real) xs = z + sum_list (map f xs)"
  by (induction xs arbitrary: z) simp_all

lemma foldl_max_Max:
  "foldl max (y::real) ys = Max (set (y # ys))"
proof (induction ys arbitrary: y)
  case Nil
  show ?case by simp
next
  case (Cons a ys)
  have "foldl max y (a # ys) = Max (set (max y a # ys))"
    using Cons.IH [of "max y a"] by simp
  also have "\<dots> = Max (set (y # a # ys))"
  proof (cases "ys = []")
    case True
    then show ?thesis by (simp add: max.commute)
  next
    case False
    then show ?thesis by (simp add: max.assoc)
  qed
  finally show ?case .
qed

lemma Math_max_nonempty:
  "xs \<noteq> [] \<Longrightarrow> Math_max xs = Some (Max (set xs))"
  by (cases xs) (simp_all add: Math_max_def foldl_max_Max del: set_simps)

lemma getColumnInnerHeight_spec:
  "getColumnInnerHeight col config = columnInnerHeightSpec config col"
  by (simp add: getColumnInnerHeight_def columnInnerHeightSpec_def foldl_add_sum_list Let_def)

text \<open>
  Claim C1. For a configuration with at least one column, \<open>calculateCarcassDimensions\<close>
  returns a record whose outer width is side + sum of the column opening widths +
  (number of columns - 1) * divider + side; whose inner height (the outer height without
  the top and the bottom panel, the record has no field of its own for it) is the maximum
  over the columns of the column inner height; whose inner depth is slide length + drawer
  back clearance; and whose outer depth is inner depth + back panel thickness.
\<close>

theorem C1_carcass_dimensions:
  assumes "columns config \<noteq> []"
  shows "\<exists>cd. calculateCarcassDimensions config = Some cd
    \<and> outerWidth cd =
        actual (carcassSides (woodAssignments config))
        + sum_list (map openingWidth (columns config))
        + (real (length (columns config)) - 1) * actual (carcassDividers (woodAssignments config))
        + actual (carcassSides (woodAssignments config))
    \<and> outerHeight cd - 2 * actual (carcassTopBottom (woodAssignments config)) =
        Max (columnInnerHeightSpec config ` set (columns config))
    \<and> innerDepth cd = slide_length (slideSpec config) + drawerBackClearance config
    \<and> outerDepth cd = innerDepth cd + actual (carcassBack (woodAssignments config))"
proof -
  let ?hs = "map (\<lambda>col. getColumnInnerHeight col config) (columns config)"
  have ne: "?hs \<noteq> []" using assms by simp
  have mx: "Math_max ?hs = Some (Max (columnInnerHeightSpec config ` set (columns config)))"
    using Math_max_nonempty [OF ne] by (simp add: getColumnInnerHeight_spec image_def)
  show ?thesis
    by (simp add: calculateCarcassDimensions_def mx Let_def foldl_add_sum_list)
qed

theorem C1_carcass_dimensions_witness:
  "columns scenarioConfig \<noteq> [] \<and>
   (\<exists>cd. calculateCarcassDimensions scenarioConfig = Some cd
      \<and> outerWidth cd = 15.4375 \<and> outerHeight cd = 19.4375 \<and> innerDepth cd = 18.5 \<and> outerDepth cd = 18.75)"
  using C1_carcass_dimensions [of scenarioConfig]
  by (auto simp add: scenarioConfig_def makeConfig_def makeColumn_def makeRow_def
      PLY_3_4_def PLY_1_4_def columnInnerHeightSpec_def)

section \<open>Drawer faces and boxes: properties\<close>

text \<open>
  Claim C2, as stated, fails: in a chest of two columns the left column has exactly one
  neighbour, and the claim's edge rule gives a face width of 15.046875 where the code
  gives 14.65625 (opening + divider - reveal); the column's single row gets a face height
  of 5.9375 (opening - reveal), not the 7.375 of the claim's single-row rule.
\<close>

theorem C2_overlay_face_counterexample:
  "drawerStyle twoColumnConfig = Overlay
   \<and> length (columns twoColumnConfig) = 2
   \<and> face_width (calculateFaceDimensions (makeRow ''r1'') (makeColumn ''c1'' [makeRow ''r1'']) 0 0 twoColumnConfig)
       = 14.65625
   \<and> openingWidth (makeColumn ''c1'' [makeRow ''r1''])
       + actual (carcassSides (woodAssignments twoColumnConfig))
       + actual (carcassDividers (woodAssignments twoColumnConfig)) / 2
       - insetRevealGap twoColumnConfig / 2 = 15.046875
   \<and> face_height (calculateFaceDimensions (makeRow ''r1'') (makeColumn ''c1'' [makeRow ''r1'']) 0 0 twoColumnConfig)
       = 5.9375
   \<and> openingHeight (makeRow ''r1'')
       + 2 * actual (carcassTopBottom (woodAssignments twoColumnConfig))
       - insetRevealGap twoColumnConfig = 7.375
   \<and> face_width (calculateFaceDimensions (makeRow ''r1'') (makeColumn ''c1'' [makeRow ''r1'']) 0 0 twoColumnConfig)
       \<noteq> openingWidth (makeColumn ''c1'' [makeRow ''r1''])
           + actual (carcassSides (woodAssignments twoColumnConfig))
           + actual (carcassDividers (woodAssignments twoColumnConfig)) / 2
           - insetRevealGap twoColumnConfig / 2
   \<and> face_height (calculateFaceDimensions (makeRow ''r1'') (makeColumn ''c1'' [makeRow ''r1'']) 0 0 twoColumnConfig)
       \<noteq> openingHeight (makeRow ''r1'')
           + 2 * actual (carcassTopBottom (woodAssignments twoColumnConfig))
           - insetRevealGap twoColumnConfig"
  by (simp add: twoColumnConfig_def makeConfig_def makeColumn_def makeRow_def PLY_3_4_def
      calculateFaceDimensions_def calculateOverlayFaceWidth_def calculateOverlayFaceHeight_def)

text \<open>
  Claim C2, amended. For the overlay style, the face width is opening + 2 * side
  thickness - reveal gap when the chest has exactly one column, and opening + divider
  thickness - reveal gap otherwise, whatever the column's position; the face height is
  opening - reveal gap when the column has exactly one row, and opening + rail height -
  reveal gap otherwise, whatever the row's position, where the rail height is the rail
  thickness when horizontal rails are enabled and 0 when they are not.
\<close>

theorem C2_overlay_face_amended:
  assumes "drawerStyle config = Overlay"
  shows "face_width (calculateFaceDimensions row column rowIndex columnIndex config) =
      (if length (columns config) = 1
       then openingWidth column + 2 * actual (carcassSides (woodAssignments config))
              - insetRevealGap config
       else openingWidth column + actual (carcassDividers (woodAssignments config))
              - insetRevealGap config)
    \<and> face_height (calculateFaceDimensions row column rowIndex columnIndex config) =
      (if length (rows column) = 1
       then openingHeight row - insetRevealGap config
       else openingHeight row
              + (if enabled (horizontalRails config)
                 then actual (rail_thickness (horizontalRails config)) else 0)
              - insetRevealGap config)"
  using assms
  by (simp add: calculateFaceDimensions_def calculateOverlayFaceWidth_def
      calculateOverlayFaceHeight_def Let_def)

theorem C2_overlay_face_amended_witness:
  "drawerStyle twoColumnConfig = Overlay
   \<and> face_width (calculateFaceDimensions (makeRow ''r2'') (makeColumn ''c2'' [makeRow ''r2'']) 0 1 twoColumnConfig)
       = 14 + 0.71875 - 0.0625
   \<and> face_height (calculateFaceDimensions (makeRow ''r2'') (makeColumn ''c2'' [makeRow ''r2'']) 0 1 twoColumnConfig)
       = 6 - 0.0625"
  using C2_overlay_face_amended [of twoColumnConfig "makeRow ''r2''" "makeColumn ''c2'' [makeRow ''r2'']" 0 1]
  by (simp add: twoColumnConfig_def makeConfig_def makeColumn_def makeRow_def PLY_3_4_def)

lemma getDrawerWood_construction [simp]:
  "getDrawerWood (row\<lparr>construction := m\<rparr>) config = getDrawerWood row config"
  by (simp add: getDrawerWood_def)

text \<open>
  Claim C3. For one row, column and configuration with a non-negative dado groove offset,
  with only the construction method varied: the usable interior width is the box outer
  width minus twice the side thickness under every method, hence the same under all three;
  and the usable interior heights are ordered butt-through-bottom \<open>\<ge>\<close>
  butt-through-sides \<open>\<ge>\<close> dado.
\<close>

theorem C3_interior_across_constructions:
  assumes "0 \<le> dadoGrooveOffset config"
  shows "(\<forall>m. usableInteriorWidth (calculateDrawerBox (row\<lparr>construction := m\<rparr>) column config)
            = boxOuterWidth (calculateDrawerBox (row\<lparr>construction := m\<rparr>) column config)
                - 2 * actual (wood_sides (getDrawerWood row config)))
    \<and> (\<forall>m m'. usableInteriorWidth (calculateDrawerBox (row\<lparr>construction := m\<rparr>) column config)
            = usableInteriorWidth (calculateDrawerBox (row\<lparr>construction := m'\<rparr>) column config))
    \<and> usableInteriorHeight (calculateDrawerBox (row\<lparr>construction := ButtThroughBottom\<rparr>) column config)
        \<ge> usableInteriorHeight (calculateDrawerBox (row\<lparr>construction := ButtThroughSides\<rparr>) column config)
    \<and> usableInteriorHeight (calculateDrawerBox (row\<lparr>construction := ButtThroughSides\<rparr>) column config)
        \<ge> usableInteriorHeight (calculateDrawerBox (row\<lparr>construction := Dado\<rparr>) column config)"
  using assms
  by (simp add: calculateDrawerBox_def Let_def calculateDadoResult_def
      calculateButtThroughSidesResult_def calculateButtThroughBottomResult_def)

theorem C3_interior_across_constructions_witness:
  "0 \<le> dadoGrooveOffset scenarioConfig
   \<and> usableInteriorWidth (calculateDrawerBox ((makeRow ''r1'')\<lparr>construction := Dado\<rparr>)
        (makeColumn ''col-1'' [makeRow ''r1'', makeRow ''r2'', makeRow ''r3'']) scenarioConfig) = 12.0625
   \<and> usableInteriorHeight (calculateDrawerBox ((makeRow ''r1'')\<lparr>construction := ButtThroughBottom\<rparr>)
        (makeColumn ''col-1'' [makeRow ''r1'', makeRow ''r2'', makeRow ''r3'']) scenarioConfig) = 5
   \<and> usableInteriorHeight (calculateDrawerBox ((makeRow ''r1'')\<lparr>construction := ButtThroughSides\<rparr>)
        (makeColumn ''col-1'' [makeRow ''r1'', makeRow ''r2'', makeRow ''r3'']) scenarioConfig) = 5
   \<and> usableInteriorHeight (calculateDrawerBox ((makeRow ''r1'')\<lparr>construction := Dado\<rparr>)
        (makeColumn ''col-1'' [makeRow ''r1'', makeRow ''r2'', makeRow ''r3'']) scenarioConfig) = 4.625"
  using C3_interior_across_constructions [of scenarioConfig "makeRow ''r1''"
      "makeColumn ''col-1'' [makeRow ''r1'', makeRow ''r2'', makeRow ''r3'']"]
  by (simp add: scenarioConfig_def makeConfig_def makeColumn_def makeRow_def
      PLY_1_2_def PLY_1_4_def calculateDrawerBox_def Let_def calculateDadoResult_def
      calculateButtThroughSidesResult_def calculateButtThroughBottomResult_def
      getDrawerWood_def orElse_def)

section \<open>Double arithmetic: properties\<close>

lemma pow2_powr: "pow2 z = 2 powr (of_int z)"
proof (cases "0 \<le> z")
  case True
  then have "2 powr (of_int z) = (2::real) powr (real (nat z))" by simp
  also have "\<dots> = 2 ^ nat z" by (simp add: powr_realpow)
  finally show ?thesis using True by (simp add: pow2_def)
next
  case False
  then have "2 powr (of_int z) = (2::real) powr (- real (nat (- z)))" by simp
  also have "\<dots> = 1 / 2 ^ nat (- z)" by (simp add: powr_minus powr_realpow divide_inverse)
  finally show ?thesis using False by (simp add: pow2_def)
qed

lemma pow2_pos [simp]: "0 < pow2 z"
  by (simp add: pow2_powr)

lemma pow2_neq0 [simp]: "pow2 z \<noteq> 0"
  by (metis pow2_pos less_irrefl)

lemma pow2_add: "pow2 (a + b) = pow2 a * pow2 b"
  by (simp add: pow2_powr powr_add)

lemma pow2_nat: "pow2 (int n) = 2 ^ n"
  by (simp add: pow2_def)

lemma pow2_mono: "a \<le> b \<Longrightarrow> pow2 a \<le> pow2 b"
  by (simp add: pow2_powr)

lemma binaryExponent_bounds:
  assumes "x \<noteq> 0"
  shows "pow2 (binaryExponent x) \<le> \<bar>x\<bar>" and "\<bar>x\<bar> < pow2 (binaryExponent x + 1)"
proof -
  let ?l = "log 2 \<bar>x\<bar>"
  have pos: "0 < \<bar>x\<bar>" using assms by simp
  have "of_int \<lfloor>?l\<rfloor> \<le> ?l" by simp
  then have "2 powr (of_int \<lfloor>?l\<rfloor>) \<le> 2 powr ?l" by simp
  also have "\<dots> = \<bar>x\<bar>" using pos by simp
  finally show "pow2 (binaryExponent x) \<le> \<bar>x\<bar>"
    by (simp add: pow2_powr binaryExponent_def)
  have "?l < of_int (\<lfloor>?l\<rfloor> + 1)" by linarith
  then have "2 powr ?l < 2 powr (of_int (\<lfloor>?l\<rfloor> + 1))" by (simp del: of_int_add)
  moreover have "2 powr ?l = \<bar>x\<bar>" using pos by simp
  ultimately show "\<bar>x\<bar> < pow2 (binaryExponent x + 1)"
    by (simp add: pow2_powr binaryExponent_def)
qed

lemma binaryExponent_eq:
  assumes "pow2 e \<le> \<bar>x\<bar>" "\<bar>x\<bar> < pow2 (e + 1)"
  shows "binaryExponent x = e"
proof -
  have pos: "0 < \<bar>x\<bar>" using assms(1) pow2_pos [of e] by linarith
  have "2 powr (of_int e) \<le> \<bar>x\<bar>" using assms(1) by (simp add: pow2_powr)
  then have l: "of_int e \<le> log 2 \<bar>x\<bar>" using pos by (simp add: le_log_iff)
  have "\<bar>x\<bar> < 2 powr (of_int (e + 1))" using assms(2) by (simp add: pow2_powr)
  then have u: "log 2 \<bar>x\<bar> < of_int (e + 1)" using pos by (simp add: log_less_iff del: of_int_add)
  show ?thesis
    unfolding binaryExponent_def using l u by (simp add: floor_eq_iff)
qed

lemma roundHalfEven_of_int [simp]: "roundHalfEven (of_int n) = n"
  by (simp add: roundHalfEven_def)

lemma fl_eval:
  assumes "pow2 e \<le> \<bar>x\<bar>" "\<bar>x\<bar> < pow2 (e + 1)"
  shows "fl x = of_int (roundHalfEven (x / pow2 (max (e - 52) (- 1074)))) * pow2 (max (e - 52) (- 1074))"
proof -
  have "0 < \<bar>x\<bar>" using assms(1) pow2_pos [of e] by linarith
  then have "x \<noteq> 0" by simp
  then show ?thesis
    by (simp add: fl_def Let_def binaryExponent_eq [OF assms])
qed

lemma dyadic_int: "dyadic j x \<Longrightarrow> \<exists>n::int. x = of_int n / 2 ^ j"
proof -
  assume d: "dyadic j x"
  have "x = (x * 2 ^ j) / 2 ^ j" by simp
  also have "\<dots> = of_int \<lfloor>x * 2 ^ j\<rfloor> / 2 ^ j"
    using d unfolding dyadic_def by (simp only:)
  finally show ?thesis by blast
qed

lemma dyadicI: "x = of_int n / 2 ^ j \<Longrightarrow> dyadic j x"
  by (simp add: dyadic_def)

lemma dyadic_add: "dyadic j a \<Longrightarrow> dyadic j b \<Longrightarrow> dyadic j (a + b)"
proof -
  assume "dyadic j a" "dyadic j b"
  then obtain n m :: int where "a = of_int n / 2 ^ j" "b = of_int m / 2 ^ j"
    using dyadic_int by blast
  then have "a + b = of_int (n + m) / 2 ^ j" by (simp add: add_divide_distrib)
  then show ?thesis by (rule dyadicI)
qed

lemma dyadic_diff: "dyadic j a \<Longrightarrow> dyadic j b \<Longrightarrow> dyadic j (a - b)"
proof -
  assume "dyadic j a" "dyadic j b"
  then obtain n m :: int where "a = of_int n / 2 ^ j" "b = of_int m / 2 ^ j"
    using dyadic_int by blast
  then have "a - b = of_int (n - m) / 2 ^ j" by (simp add: diff_divide_distrib)
  then show ?thesis by (rule dyadicI)
qed

lemma dyadic_0 [simp]: "dyadic j 0"
  by (simp add: dyadic_def)

lemma fl_exact:
  assumes d: "dyadic j x" and j: "j \<le> 1074" and b: "\<bar>x\<bar> < 2 ^ 53 / 2 ^ j"
  shows "fl x = x"
proof (cases "x = 0")
  case True
  then show ?thesis by (simp add: fl_def)
next
  case False
  obtain n :: int where n: "x = of_int n / 2 ^ j" using d dyadic_int by blast
  define q where "q = max (binaryExponent x - 52) (- 1074)"
  have "pow2 (binaryExponent x) \<le> \<bar>x\<bar>" using binaryExponent_bounds(1) [OF False] .
  also have "\<dots> < 2 ^ 53 / 2 ^ j" using b .
  also have "\<dots> = pow2 (53 - int j)"
  proof -
    have "pow2 (int 53) = pow2 (53 - int j) * pow2 (int j)"
      using pow2_add [of "53 - int j" "int j"] by simp
    then have "(2::real) ^ 53 = pow2 (53 - int j) * 2 ^ j"
      by (simp only: pow2_nat)
    then show ?thesis by (simp add: field_simps)
  qed
  finally have "pow2 (binaryExponent x) < pow2 (53 - int j)" .
  then have "binaryExponent x < 53 - int j"
    using pow2_mono [of "53 - int j" "binaryExponent x"] by linarith
  then have q: "q \<le> - int j" using j by (simp add: q_def)
  define k where "k = nat (- int j - q)"
  have k: "int k = - int j - q" using q by (simp add: k_def)
  have "pow2 (int k + q) = pow2 (int k) * pow2 q" by (rule pow2_add)
  moreover have "int k + q = - int j" using k by simp
  ultimately have inv: "pow2 (- int j) = 2 ^ k * pow2 q"
    by (simp only: pow2_nat)
  have "pow2 (- int j) * pow2 (int j) = pow2 0"
    using pow2_add [of "- int j" "int j"] by simp
  then have "pow2 (- int j) * 2 ^ j = 1"
    by (simp add: pow2_nat) (simp add: pow2_def)
  then have "1 / 2 ^ j = pow2 (- int j)" by (simp add: field_simps)
  with inv have inv': "1 / 2 ^ j = 2 ^ k * pow2 q" by simp
  have "x = of_int n * (1 / 2 ^ j)" using n by simp
  also have "\<dots> = of_int n * (2 ^ k * pow2 q)" by (simp only: inv')
  finally have xq: "x = of_int (n * 2 ^ k) * pow2 q" by simp
  have "pow2 q \<noteq> 0" by (metis pow2_pos less_irrefl)
  then have "of_int (n * 2 ^ k) * pow2 q / pow2 q = (of_int (n * 2 ^ k) :: real)"
    by simp
  then have xq': "x / pow2 q = of_int (n * 2 ^ k)"
    by (simp only: xq)
  have "fl x = of_int (roundHalfEven (x / pow2 q)) * pow2 q"
    using False by (simp add: fl_def Let_def q_def)
  also have "\<dots> = of_int (n * 2 ^ k) * pow2 q"
    by (simp only: xq' roundHalfEven_of_int)
  also have "\<dots> = x" using xq by simp
  finally show ?thesis .
qed

lemma fl_dyadic20: "dyadic 20 x \<Longrightarrow> \<bar>x\<bar> < 2 ^ 33 \<Longrightarrow> fl x = x"
  by (rule fl_exact [of 20]) simp_all

section \<open>Grid units: properties\<close>

lemma MM_PER_INCH_value: "MM_PER_INCH = 7149464408450662 / 2 ^ 48"
proof -
  have "fl 25.4 = of_int (roundHalfEven (25.4 / pow2 (max (4 - 52) (- 1074))))
      * pow2 (max (4 - 52) (- 1074))"
    by (rule fl_eval) (simp_all add: pow2_def)
  also have "\<dots> = 7149464408450662 / 2 ^ 48"
    by (simp add: pow2_def roundHalfEven_def Let_def)
  finally show ?thesis by (simp add: MM_PER_INCH_def)
qed

lemma inches_6223: "fl (261366 / MM_PER_INCH) = 10290"
proof -
  have "fl (261366 / MM_PER_INCH)
      = of_int (roundHalfEven (261366 / MM_PER_INCH / pow2 (max (13 - 52) (- 1074))))
          * pow2 (max (13 - 52) (- 1074))"
    by (rule fl_eval) (simp_all add: pow2_def MM_PER_INCH_value)
  also have "\<dots> = 10290"
    by (simp add: pow2_def MM_PER_INCH_value roundHalfEven_def Let_def)
  finally show ?thesis .
qed

lemma opening_6223: "openingWidthForGridUnits 6223 0.5 0.5 = 10292"
  by (simp add: openingWidthForGridUnits_def Let_def GRID_UNIT_MM_def inches_6223
      roundUpToNearestEighth_def fl_dyadic20 dyadic_def)

lemma mm_10290: "fl (10290 * MM_PER_INCH) = 8980467378290687 / 2 ^ 35"
proof -
  have "fl (10290 * MM_PER_INCH)
      = of_int (roundHalfEven (10290 * MM_PER_INCH / pow2 (max (17 - 52) (- 1074))))
          * pow2 (max (17 - 52) (- 1074))"
    by (rule fl_eval) (simp_all add: pow2_def MM_PER_INCH_value)
  also have "\<dots> = 8980467378290687 / 2 ^ 35"
    by (simp add: pow2_def MM_PER_INCH_value roundHalfEven_def Let_def)
  finally show ?thesis .
qed

lemma units_10290: "fl (8980467378290687 / 2 ^ 35 / 42) = 6842260859650047 / 2 ^ 40"
proof -
  have "fl (8980467378290687 / 2 ^ 35 / 42)
      = of_int (roundHalfEven (8980467378290687 / 2 ^ 35 / 42 / pow2 (max (12 - 52) (- 1074))))
          * pow2 (max (12 - 52) (- 1074))"
    by (rule fl_eval) (simp_all add: pow2_def)
  also have "\<dots> = 6842260859650047 / 2 ^ 40"
    by (simp add: pow2_def roundHalfEven_def Let_def)
  finally show ?thesis .
qed

text \<open>
  Without the roundings the ceiling to 1/8 inch never under-sizes: the interior width
  left by the rounded-up opening is at least the requested \<open>g * 42\<close> mm.
\<close>

lemma round_up_fits_in_exact_arithmetic:
  "of_int g * 42
     \<le> (roundUpToNearestEighth (of_int g * 42 / 25.4 + 2 * s + 2 * c) - 2 * c - 2 * s) * 25.4"
proof -
  let ?x = "of_int g * 42 / 25.4 + 2 * s + 2 * c :: real"
  have "?x * 8 \<le> of_int \<lceil>?x * 8\<rceil>" by (rule le_of_int_ceiling)
  then have "?x \<le> roundUpToNearestEighth ?x"
    by (simp add: roundUpToNearestEighth_def)
  then have "of_int g * 42 / 25.4 \<le> roundUpToNearestEighth ?x - 2 * c - 2 * s"
    by simp
  then show ?thesis by (simp add: field_simps)
qed

text \<open>
  Claim C7 fails on the code at 6223 grid units with a side thickness and a clearance
  of 0.5: the opening width is 10292, the interior width of 10290 inches converts to
  less than 6223 * 42 = 261366 mm (the double below it), and \<open>gridfinityGridUnits\<close>
  gives 6222.
\<close>

theorem C7_round_trip_fails_in_doubles:
  "openingWidthForGridUnits 6223 0.5 0.5 = 10292
   \<and> interiorWidthMm (openingWidthForGridUnits 6223 0.5 0.5) 0.5 0.5 < 6223 * 42
   \<and> gridfinityGridUnits (interiorWidthMm (openingWidthForGridUnits 6223 0.5 0.5) 0.5 0.5) = 6222"
proof -
  have i: "interiorWidthMm 10292 0.5 0.5 = 8980467378290687 / 2 ^ 35"
    by (simp add: interiorWidthMm_def toMm_def fl_dyadic20 dyadic_def mm_10290)
  have u: "gridfinityGridUnits (8980467378290687 / 2 ^ 35) = 6222"
    unfolding gridfinityGridUnits_def GRID_UNIT_MM_def units_10290 by simp
  show ?thesis
    unfolding opening_6223 i u by simp
qed

section \<open>Drawer warnings: properties\<close>

text \<open>
  \<open>collectWarnings\<close> pushes \<open>slide-height\<close> and \<open>negative-dimension\<close> only, and the
  box outer depth is the slide length itself.
\<close>

lemma collectWarnings_types:
  "warning_type ` set (collectWarnings dims config opening) \<subseteq> {SlideHeight, NegativeDimension}"
  by (auto simp add: collectWarnings_def Let_def)

lemma calculateDrawerBox_warning_types:
  "warning_type ` set (warnings (calculateDrawerBox row column config))
     \<subseteq> {SlideHeight, NegativeDimension}"
  by (simp add: calculateDrawerBox_def Let_def collectWarnings_types)

lemma calculateDrawerBox_boxOuterDepth:
  "boxOuterDepth (calculateDrawerBox row column config) = slide_length (slideSpec config)"
  by (simp add: calculateDrawerBox_def Let_def)

section \<open>Bin packing: properties\<close>

lemma rectsOverlap_sym: "rectsOverlap a b = rectsOverlap b a"
  by (auto simp add: rectsOverlap_def)

lemma sep_inside_right:
  "\<not> rectsOverlap a r \<Longrightarrow> rectInside r n \<Longrightarrow> \<not> rectsOverlap a n"
  by (auto simp add: rectsOverlap_def rectInside_def)

lemma sep_inside_left:
  "\<not> rectsOverlap r a \<Longrightarrow> rectInside r n \<Longrightarrow> \<not> rectsOverlap n a"
  by (auto simp add: rectsOverlap_def rectInside_def)

lemma rectInside_trans:
  "rectInside S r \<Longrightarrow> rectInside r n \<Longrightarrow> rectInside S n"
  by (auto simp add: rectInside_def)

lemma sep_interior:
  "\<not> rectsOverlap a b \<Longrightarrow> interior a \<inter> interior b = {}"
  by (auto simp add: rectsOverlap_def interior_def)

lemma findBestFitFrom_Some:
  "findBestFitFrom w h rot i rects best = Some fit \<Longrightarrow>
     best = Some fit \<or>
     (i \<le> rectIndex fit \<and> rectIndex fit < i + length rects
        \<and> fits rot w h fit (rects ! (rectIndex fit - i)))"
proof (induction rects arbitrary: i best)
  case Nil
  then show ?case by simp
next
  case (Cons rect rest)
  let ?l = "rect_width rect * rect_height rect - w * h"
  let ?b1 = "if w \<le> rect_width rect \<and> h \<le> rect_height rect \<and> improves best ?l
             then Some \<lparr>rectIndex = i, fit_rotated = False, leftover = ?l\<rparr> else best"
  let ?b2 = "if rot \<and> h \<le> rect_width rect \<and> w \<le> rect_height rect \<and> improves ?b1 ?l
             then Some \<lparr>rectIndex = i, fit_rotated = True, leftover = ?l\<rparr> else ?b1"
  from Cons.prems have run: "findBestFitFrom w h rot (Suc i) rest ?b2 = Some fit"
    by (simp add: Let_def)
  from Cons.IH [OF run] consider
      (same) "?b2 = Some fit"
    | (later) "Suc i \<le> rectIndex fit" "rectIndex fit < Suc i + length rest"
        "fits rot w h fit (rest ! (rectIndex fit - Suc i))"
    by blast
  then show ?case
  proof cases
    case same
    then show ?thesis
      by (auto simp add: fits_def split: if_splits)
  next
    case later
    then have "(rect # rest) ! (rectIndex fit - i) = rest ! (rectIndex fit - Suc i)"
      by (simp add: nth_Cons split: nat.split) (metis Suc_diff_Suc Suc_le_lessD nat.inject)
    with later show ?thesis by simp
  qed
qed

lemma findBestFit_Some:
  assumes "findBestFit w h k rects rot = Some fit"
  shows "rectIndex fit < length rects \<and> fits rot w h fit (rects ! rectIndex fit)"
  using findBestFitFrom_Some [of w h rot 0 rects None fit] assms
  by (simp add: findBestFit_def)




lemma splice_pairwise:
  assumes sw: "sorted_wrt (\<lambda>a b. \<not> rectsOverlap a b) fr"
    and n: "n < length fr"
    and ins: "\<forall>x \<in> set new. rectInside (fr ! n) x"
    and newp: "sorted_wrt (\<lambda>a b. \<not> rectsOverlap a b) new"
  shows "sorted_wrt (\<lambda>a b. \<not> rectsOverlap a b) (take n fr @ new @ drop (Suc n) fr)"
proof -
  have split: "fr = take n fr @ [fr ! n] @ drop (Suc n) fr"
    using n by (simp add: id_take_nth_drop)
  have sw': "sorted_wrt (\<lambda>a b. \<not> rectsOverlap a b) (take n fr @ [fr ! n] @ drop (Suc n) fr)"
    using sw split by simp
  then have a: "sorted_wrt (\<lambda>a b. \<not> rectsOverlap a b) (take n fr)"
    and b: "sorted_wrt (\<lambda>a b. \<not> rectsOverlap a b) (drop (Suc n) fr)"
    and ab: "\<forall>x \<in> set (take n fr). \<forall>y \<in> set (drop (Suc n) fr). \<not> rectsOverlap x y"
    and ar: "\<forall>x \<in> set (take n fr). \<not> rectsOverlap x (fr ! n)"
    and rb: "\<forall>y \<in> set (drop (Suc n) fr). \<not> rectsOverlap (fr ! n) y"
    by (auto simp add: sorted_wrt_append)
  have an: "\<forall>x \<in> set (take n fr). \<forall>y \<in> set new. \<not> rectsOverlap x y"
    using ar ins sep_inside_right by blast
  have nb: "\<forall>x \<in> set new. \<forall>y \<in> set (drop (Suc n) fr). \<not> rectsOverlap x y"
    using rb ins sep_inside_left by blast
  show ?thesis
    using a b ab an nb newp by (auto simp add: sorted_wrt_append)
qed



lemma initialState_packInv: "packInv (sheetRect sheet) (initialState sheet)"
  by (simp add: packInv_def initialState_def sheetRect_def rectInside_def)


lemma foldl_fillStep_remaining_subset:
  "set (st_remaining (foldl (fillStep k rot) st items)) \<subseteq> set (st_remaining st) \<union> set items"
proof (induction items arbitrary: st)
  case Nil
  show ?case by simp
next
  case (Cons a items)
  have "set (st_remaining (fillStep k rot st a)) \<subseteq> set (st_remaining st) \<union> {a}"
    by (auto simp add: fillStep_def Let_def split: option.split)
  with Cons.IH [of "fillStep k rot st a"] show ?case by auto
qed

lemma fillSheet_remaining_subset:
  "set (fr_remaining (fillSheet items sheet k rot)) \<subseteq> set items"
  using foldl_fillStep_remaining_subset [of k rot "initialState sheet" items]
  by (simp add: fillSheet_def Let_def initialState_def)

lemma packLoop_all:
  assumes "list_all P layouts"
    and "\<forall>item \<in> set unplaced. Q item"
    and step: "\<And>items. \<forall>item \<in> set items. Q item \<Longrightarrow>
            P (buildLayout sheet (fr_placements (fillSheet items sheet k rot)))"
  shows "list_all P (packLoop layouts unplaced sheet k rot)"
  using assms
proof (induction layouts unplaced sheet k rot rule: packLoop.induct)
  case (1 layouts unplaced sheet kerfW allowRotation)
  let ?r = "fillSheet unplaced sheet kerfW allowRotation"
  have new: "P (buildLayout sheet (fr_placements ?r))"
    using "1.prems"(2,3) by blast
  have rem: "\<forall>item \<in> set (fr_remaining ?r). Q item"
    using fillSheet_remaining_subset [of unplaced sheet kerfW allowRotation] "1.prems"(2)
    by blast
  show ?case
  proof (cases "0 < length unplaced \<and> length (fr_placements ?r) \<noteq> 0
      \<and> length (fr_remaining ?r) \<noteq> length unplaced")
    case True
    have "list_all P (packLoop (layouts @ [buildLayout sheet (fr_placements ?r)])
        (fr_remaining ?r) sheet kerfW allowRotation)"
      using True "1.prems"(1,3) new rem by (intro "1.IH") simp_all
    then show ?thesis
      using True by (subst packLoop.simps) simp
  next
    case False
    then show ?thesis
      using "1.prems"(1) new by (subst packLoop.simps) auto
  qed
qed




lemmas pack_eval =
  packPieces_def expandPieces_def packLoop.simps fillSheet_def fillStep_def
  initialState_def findBestFit_def improves_def guillotineSplit_def buildLayout_def
  placedWidth_def placedHeight_def makePiece_def makeSheet_def Let_def

text \<open>
  Claim C5. Two 24 x 47 pieces on a 48 x 48 sheet: with kerf 0, \<open>packPieces\<close> returns
  one layout that holds both placements, side by side; with kerf 0.125 it returns two
  layouts of one placement each. This holds for one cut piece of quantity 2 and for two
  cut pieces of quantity 1.
\<close>

theorem C5_two_half_width_pieces:
  "map (\<lambda>l. map (\<lambda>p. (placed_piece p, placed_x p, placed_y p, rotated p)) (placements l))
     (packPieces [makePiece 24 47 2] (makeSheet 48 48) 0 True)
     = [[(makePiece 24 47 2, 0, 0, False), (makePiece 24 47 2, 24, 0, False)]]
   \<and> map (\<lambda>l. map (\<lambda>p. (placed_piece p, placed_x p, placed_y p, rotated p)) (placements l))
     (packPieces [makePiece 24 47 2] (makeSheet 48 48) 0.125 True)
     = [[(makePiece 24 47 2, 0, 0, False)], [(makePiece 24 47 2, 0, 0, False)]]
   \<and> map (\<lambda>l. map (\<lambda>p. (placed_piece p, placed_x p, placed_y p, rotated p)) (placements l))
     (packPieces [makePiece 24 47 1, makePiece 24 47 1] (makeSheet 48 48) 0 True)
     = [[(makePiece 24 47 1, 0, 0, False), (makePiece 24 47 1, 24, 0, False)]]
   \<and> map (\<lambda>l. map (\<lambda>p. (placed_piece p, placed_x p, placed_y p, rotated p)) (placements l))
     (packPieces [makePiece 24 47 1, makePiece 24 47 1] (makeSheet 48 48) 0.125 True)
     = [[(makePiece 24 47 1, 0, 0, False)], [(makePiece 24 47 1, 0, 0, False)]]"
  by (simp add: pack_eval eval_nat_numeral)

lemma fillStep_not_rotated:
  assumes "\<forall>p \<in> set (st_placements st). \<not> rotated p"
  shows "\<forall>p \<in> set (st_placements (fillStep k False st item)). \<not> rotated p"
proof (cases "findBestFit (ep_width item) (ep_height item) k (freeRects st) False")
  case None
  then show ?thesis using assms by (simp add: fillStep_def)
next
  case (Some fit)
  from findBestFit_Some [OF Some] have "\<not> fit_rotated fit"
    by (auto simp add: fits_def split: if_splits)
  then show ?thesis
    using assms Some by (auto simp add: fillStep_def Let_def)
qed

lemma foldl_fillStep_not_rotated:
  "\<forall>p \<in> set (st_placements st). \<not> rotated p \<Longrightarrow>
   \<forall>p \<in> set (st_placements (foldl (fillStep k False) st items)). \<not> rotated p"
proof (induction items arbitrary: st)
  case Nil
  then show ?case by simp
next
  case (Cons a items)
  from Cons.IH [OF fillStep_not_rotated [OF Cons.prems, of k a]] show ?case by simp
qed

lemma fillSheet_not_rotated:
  "\<forall>p \<in> set (fr_placements (fillSheet items sheet k False)). \<not> rotated p"
  using foldl_fillStep_not_rotated [of "initialState sheet" k items]
  by (simp add: fillSheet_def Let_def initialState_def)

text \<open>
  Claim C10. With \<open>allowRotation = false\<close>, every placed piece of every layout returned
  by \<open>packPieces\<close> has its rotation flag unset.
\<close>

theorem C10_no_rotation_when_disallowed:
  "list_all (\<lambda>layout. list_all (\<lambda>p. \<not> rotated p) (placements layout))
     (packPieces pieces sheet kerfW False)"
  unfolding packPieces_def Let_def
proof (rule packLoop_all [where Q = "\<lambda>item. True"])
  show "list_all (\<lambda>layout. list_all (\<lambda>p. \<not> rotated p) (placements layout)) []" by simp
  show "\<forall>item \<in> set (sort_key (\<lambda>e. - (ep_width e * ep_height e)) (expandPieces pieces)). True"
    by simp
  fix items :: "ExpandedPiece list"
  show "list_all (\<lambda>p. \<not> rotated p)
      (placements (buildLayout sheet (fr_placements (fillSheet items sheet kerfW False))))"
    using fillSheet_not_rotated [of items sheet kerfW]
    by (simp add: buildLayout_def Let_def list_all_iff)
qed

theorem C10_no_rotation_when_disallowed_witness:
  "map (\<lambda>l. map (\<lambda>p. (placed_x p, placed_y p, placedWidth p, placedHeight p)) (placements l))
     (packPieces [makePiece 40 10 1, makePiece 10 40 1] (makeSheet 48 20) 0 False)
     = [[(0, 0, 40, 10)]]
   \<and> map (\<lambda>l. map (\<lambda>p. (placed_x p, placed_y p, placedWidth p, placedHeight p)) (placements l))
     (packPieces [makePiece 40 10 1, makePiece 10 40 1] (makeSheet 48 20) 0 True)
     = [[(0, 0, 40, 10), (0, 10, 40, 10)]]
   \<and> list_all (\<lambda>layout. list_all (\<lambda>p. \<not> rotated p) (placements layout))
     (packPieces [makePiece 40 10 1, makePiece 10 40 1] (makeSheet 48 20) 0 False)"
  using C10_no_rotation_when_disallowed
    [of "[makePiece 40 10 1, makePiece 10 40 1]" "makeSheet 48 20" 0]
  by (simp add: pack_eval eval_nat_numeral)









section \<open>Cut list aggregation: properties\<close>

lemma mergeStep_inv:
  assumes "mergeInv merged seen"
  shows "mergeInv (mergeStep merged piece) (seen @ [piece])"
proof -
  let ?key = "pieceKey piece"
  from assms have d: "distinct (map fst merged)"
    and m: "\<And>k. case map_of merged k of
                None \<Rightarrow> k \<notin> pieceKey ` set seen
              | Some v \<Rightarrow> pieceKey v = k \<and> k \<in> pieceKey ` set seen
                          \<and> quantity v = keyQuantity k seen"
    by (simp_all add: mergeInv_def del: split_paired_All)
  show ?thesis
  proof (cases "map_of merged ?key")
    case None
    then have step: "mergeStep merged piece = AList.update ?key piece merged"
      by (simp add: mergeStep_def)
    have notin: "?key \<notin> pieceKey ` set seen" using m [of ?key] None by simp
    then have "\<forall>q \<in> set seen. pieceKey q \<noteq> ?key"
      by (metis image_eqI)
    then have "filter (\<lambda>q. pieceKey q = ?key) seen = []"
      by (simp add: filter_empty_conv)
    then have q0: "keyQuantity ?key seen = 0"
      by (simp add: keyQuantity_def)
    have "case map_of (AList.update ?key piece merged) k of
                None \<Rightarrow> k \<notin> pieceKey ` set (seen @ [piece])
              | Some v \<Rightarrow> pieceKey v = k \<and> k \<in> pieceKey ` set (seen @ [piece])
                          \<and> quantity v = keyQuantity k (seen @ [piece])" for k
    proof (cases "k = ?key")
      case True
      then show ?thesis using q0 by (simp add: update_conv' keyQuantity_def)
    next
      case False
      then show ?thesis
        using m [of k] by (auto simp add: update_conv' keyQuantity_def split: option.splits)
    qed
    then show ?thesis
      unfolding step mergeInv_def using d by (simp add: distinct_update)
  next
    case (Some existing)
    let ?v = "existing\<lparr>quantity := quantity existing + quantity piece\<rparr>"
    have step: "mergeStep merged piece = AList.update ?key ?v merged"
      using Some by (simp add: mergeStep_def)
    have ex: "pieceKey existing = ?key" "quantity existing = keyQuantity ?key seen"
      using m [of ?key] Some by simp_all
    have "case map_of (AList.update ?key ?v merged) k of
                None \<Rightarrow> k \<notin> pieceKey ` set (seen @ [piece])
              | Some v \<Rightarrow> pieceKey v = k \<and> k \<in> pieceKey ` set (seen @ [piece])
                          \<and> quantity v = keyQuantity k (seen @ [piece])" for k
    proof (cases "k = ?key")
      case True
      then show ?thesis
        using ex by (simp add: update_conv' keyQuantity_def pieceKey_def)
    next
      case False
      then show ?thesis
        using m [of k] by (auto simp add: update_conv' keyQuantity_def split: option.splits)
    qed
    then show ?thesis
      unfolding step mergeInv_def using d by (simp add: distinct_update)
  qed
qed

lemma foldl_mergeStep_inv:
  "mergeInv merged seen \<Longrightarrow> mergeInv (foldl mergeStep merged ps) (seen @ ps)"
proof (induction ps arbitrary: merged seen)
  case Nil
  then show ?case by simp
next
  case (Cons p ps)
  from Cons.IH [OF mergeStep_inv [OF Cons.prems, of p]] show ?case by simp
qed

lemma mergePieces_spec:
  "distinct (map pieceKey (mergePieces ps))
   \<and> pieceKey ` set (mergePieces ps) = pieceKey ` set ps
   \<and> (\<forall>p \<in> set (mergePieces ps). quantity p = keyQuantity (pieceKey p) ps)"
proof -
  let ?m = "foldl mergeStep [] ps"
  have "mergeInv [] []" by (simp add: mergeInv_def)
  from foldl_mergeStep_inv [OF this, of ps] have inv: "mergeInv ?m ps" by simp
  then have d: "distinct (map fst ?m)"
    and m: "\<And>k. case map_of ?m k of
                None \<Rightarrow> k \<notin> pieceKey ` set ps
              | Some v \<Rightarrow> pieceKey v = k \<and> k \<in> pieceKey ` set ps
                          \<and> quantity v = keyQuantity k ps"
    by (simp_all add: mergeInv_def del: split_paired_All)
  have entry: "pieceKey v = k \<and> k \<in> pieceKey ` set ps \<and> quantity v = keyQuantity k ps"
    if "(k, v) \<in> set ?m" for k v
  proof -
    have "map_of ?m k = Some v" using d that by simp
    then show ?thesis using m [of k] by simp
  qed
  have keys: "map pieceKey (map snd ?m) = map fst ?m"
    using entry by (auto simp add: map_eq_conv)
  have sub: "pieceKey ` set ps \<subseteq> fst ` set ?m"
  proof
    fix k assume k: "k \<in> pieceKey ` set ps"
    then have "map_of ?m k \<noteq> None" using m [of k] by (auto split: option.splits)
    then show "k \<in> fst ` set ?m" by (simp add: map_of_eq_None_iff)
  qed
  have "fst ` set ?m \<subseteq> pieceKey ` set ps" using entry by auto
  with sub have eq: "fst ` set ?m = pieceKey ` set ps" by blast
  have "pieceKey ` set (map snd ?m) = set (map pieceKey (map snd ?m))"
    by (simp only: set_map)
  also have "\<dots> = fst ` set ?m" unfolding keys by simp
  finally have img: "pieceKey ` set (map snd ?m) = pieceKey ` set ps" using eq by simp
  have c1: "distinct (map pieceKey (map snd ?m))"
    unfolding keys using d .
  have c3: "\<forall>p \<in> set (map snd ?m). quantity p = keyQuantity (pieceKey p) ps"
  proof
    fix p assume "p \<in> set (map snd ?m)"
    then obtain k where "(k, p) \<in> set ?m" by auto
    from entry [OF this] show "quantity p = keyQuantity (pieceKey p) ps" by simp
  qed
  show ?thesis
    unfolding mergePieces_def using c1 img c3 by blast
qed

lemma scenario_carcass:
  "calculateCarcassDimensions scenarioConfig = Some scenarioCarcass"
  by (simp add: calculateCarcassDimensions_def scenarioConfig_def makeConfig_def makeColumn_def
      makeRow_def PLY_3_4_def PLY_1_4_def Math_max_def getColumnInnerHeight_def Let_def
      checkConstraintViolations_def scenarioCarcass_def)

lemma roundUp_numeral [simp]:
  "roundUpToNearestEighth (numeral a / numeral b)
     = of_int (- ((- (numeral a * 8)) div numeral b)) / 8"
  by (simp add: roundUpToNearestEighth_def ceiling_def floor_divide_of_int_eq [symmetric]
        del: floor_divide_of_int_eq) 

lemma scenario_aggregate:
  "map_option (map (\<lambda>p. (piece_id p, wt_id (thickness p), width p, height p, quantity p)))
     (aggregateCutPieces scenarioConfig)
   = Some [(''carcass-top'', ''ply-3/4'', 14, 18.5, 2),
           (''carcass-sides'', ''ply-3/4'', 18.5, 18, 2),
           (''carcass-back'', ''ply-1/4'', 15.4375, 19.4375, 1),
           (''col-1-r1-side'', ''ply-1/2'', 18, 5.25, 6),
           (''col-1-r1-front'', ''ply-1/2'', 12.0625, 5.25, 6),
           (''col-1-r1-bottom'', ''ply-1/4'', 12.625, 17.625, 3),
           (''col-1-r1-face'', ''ply-3/4'', 15.375, 6, 3)]"
  apply (simp add: aggregateCutPieces_def scenario_carcass)
  apply (simp add: allPieces_def getCarcassPieces_def getDrawerPieces_def calculateDrawerBox_def
      scenarioCarcass_def scenarioConfig_def makeConfig_def makeColumn_def makeRow_def
      PLY_3_4_def PLY_1_4_def PLY_1_2_def Let_def getDrawerWood_def orElse_def
      calculateDadoResult_def calculateFaceDimensions_def calculateOverlayFaceWidth_def
      calculateOverlayFaceHeight_def collectWarnings_def)
  apply (simp add: mergePieces_def mergeStep_def pieceKey_def)
  done

text \<open>
  Claim C6. In the output of \<open>aggregateCutPieces\<close>, no two entries share the same
  (thickness id, width, height) triple; the triples of the output are those of the input
  pieces; every input piece has exactly one output entry of its triple, so two input
  pieces end in one entry exactly when their triples are equal, width and height not
  being interchangeable; and the quantity of each output entry is the sum of the
  quantities of the input pieces of its triple.
\<close>

theorem C6_aggregate_merges_by_key:
  assumes "calculateCarcassDimensions config = Some carcass"
  shows "\<exists>out. aggregateCutPieces config = Some out
    \<and> distinct (map pieceKey out)
    \<and> pieceKey ` set out = pieceKey ` set (allPieces config carcass)
    \<and> list_all (\<lambda>q. \<exists>!p. p \<in> set out \<and> pieceKey p = pieceKey q) (allPieces config carcass)
    \<and> list_all (\<lambda>p. quantity p =
          sum_list (map quantity (filter (\<lambda>q. pieceKey q = pieceKey p) (allPieces config carcass))))
        out
    \<and> (\<forall>a b. (pieceKey a = pieceKey b) =
          (wt_id (thickness a) = wt_id (thickness b) \<and> width a = width b \<and> height a = height b))"
proof -
  let ?in = "allPieces config carcass"
  let ?out = "mergePieces ?in"
  have out: "aggregateCutPieces config = Some ?out"
    using assms by (simp add: aggregateCutPieces_def)
  from mergePieces_spec [of ?in] have d: "distinct (map pieceKey ?out)"
    and k: "pieceKey ` set ?out = pieceKey ` set ?in"
    and q: "\<forall>p \<in> set ?out. quantity p = keyQuantity (pieceKey p) ?in"
    by blast+
  have u: "\<exists>!p. p \<in> set ?out \<and> pieceKey p = pieceKey x" if "x \<in> set ?in" for x
  proof -
    from that k have "pieceKey x \<in> pieceKey ` set ?out" by blast
    then obtain p where p: "p \<in> set ?out" "pieceKey p = pieceKey x" by auto
    have "p' = p" if "p' \<in> set ?out" "pieceKey p' = pieceKey x" for p'
      using d p that by (metis distinct_map inj_onD)
    with p show ?thesis by blast
  qed
  have c4: "list_all (\<lambda>x. \<exists>!p. p \<in> set ?out \<and> pieceKey p = pieceKey x) ?in"
    using u by (simp add: list_all_iff)
  have c5: "list_all (\<lambda>p. quantity p =
          sum_list (map quantity (filter (\<lambda>x. pieceKey x = pieceKey p) ?in))) ?out"
    using q by (simp add: list_all_iff keyQuantity_def)
  have c6: "\<forall>a b. (pieceKey a = pieceKey b) =
          (wt_id (thickness a) = wt_id (thickness b) \<and> width a = width b \<and> height a = height b)"
    by (simp add: pieceKey_def)
  show ?thesis
    using out d k c4 c5 c6 by blast
qed

theorem C6_aggregate_merges_by_key_witness:
  "calculateCarcassDimensions scenarioConfig = Some scenarioCarcass
   \<and> map_option (map (\<lambda>p. (piece_id p, wt_id (thickness p), width p, height p, quantity p)))
       (aggregateCutPieces scenarioConfig)
     = Some [(''carcass-top'', ''ply-3/4'', 14, 18.5, 2),
             (''carcass-sides'', ''ply-3/4'', 18.5, 18, 2),
             (''carcass-back'', ''ply-1/4'', 15.4375, 19.4375, 1),
             (''col-1-r1-side'', ''ply-1/2'', 18, 5.25, 6),
             (''col-1-r1-front'', ''ply-1/2'', 12.0625, 5.25, 6),
             (''col-1-r1-bottom'', ''ply-1/4'', 12.625, 17.625, 3),
             (''col-1-r1-face'', ''ply-3/4'', 15.375, 6, 3)]
   \<and> (\<exists>out. aggregateCutPieces scenarioConfig = Some out
        \<and> distinct (map pieceKey out)
        \<and> pieceKey ` set out = pieceKey ` set (allPieces scenarioConfig scenarioCarcass)
        \<and> list_all (\<lambda>q. \<exists>!p. p \<in> set out \<and> pieceKey p = pieceKey q)
             (allPieces scenarioConfig scenarioCarcass)
        \<and> list_all (\<lambda>p. quantity p =
              sum_list (map quantity (filter (\<lambda>q. pieceKey q = pieceKey p)
                 (allPieces scenarioConfig scenarioCarcass))))
            out)"
  using scenario_carcass scenario_aggregate
    C6_aggregate_merges_by_key [OF scenario_carcass]
  by blast

lemma mergePieces_order_sensitive:
  "map (\<lambda>p. (width p, height p, quantity p))
     (mergePieces [makePiece 10 20 1, makePiece 20 10 1, makePiece 10 20 2])
   = [(10, 20, 3), (20, 10, 1)]"
  by (simp add: mergePieces_def mergeStep_def pieceKey_def makePiece_def)

section \<open>Bin packing in double arithmetic: properties\<close>

lemmas packD_eval =
  packPiecesD_def expandPieces_def packLoopD.simps fillSheetD_def fillStepD_def
  initialState_def findBestFitD_def improves_def guillotineSplitD_def buildLayoutD_def
  placedWidth_def placedHeight_def makePiece_def makeSheet_def Let_def
  fl_dyadic20 dyadic_def
lemma fl_add_exact:
  "dyadic j a \<Longrightarrow> dyadic j b \<Longrightarrow> j \<le> 1074 \<Longrightarrow> \<bar>a + b\<bar> < 2 ^ 53 / 2 ^ j \<Longrightarrow> fl (a + b) = a + b"
  by (rule fl_exact [of j]) (simp_all add: dyadic_add)

lemma fl_diff_exact:
  "dyadic j a \<Longrightarrow> dyadic j b \<Longrightarrow> j \<le> 1074 \<Longrightarrow> \<bar>a - b\<bar> < 2 ^ 53 / 2 ^ j \<Longrightarrow> fl (a - b) = a - b"
  by (rule fl_exact [of j]) (simp_all add: dyadic_diff)

lemma splitWith_inside:
  assumes "0 \<le> k" "0 \<le> pw" "0 \<le> ph" "pw \<le> rect_width r" "ph \<le> rect_height r"
  shows "\<forall>n \<in> set (splitWith d r pw ph k). rectInside r n"
  using assms by (auto simp add: splitWith_def Let_def rectInside_def)

lemma splitWith_sep_piece:
  assumes "0 \<le> k"
  shows "\<forall>n \<in> set (splitWith d r pw ph k).
     \<not> rectsOverlap \<lparr>rect_x = rect_x r, rect_y = rect_y r, rect_width = pw, rect_height = ph\<rparr> n"
  using assms by (auto simp add: splitWith_def Let_def rectsOverlap_def)

lemma splitWith_pairwise:
  assumes "0 \<le> k"
  shows "sorted_wrt (\<lambda>a b. \<not> rectsOverlap a b) (splitWith d r pw ph k)"
  using assms by (auto simp add: splitWith_def Let_def rectsOverlap_def)

lemma splitWith_onGrid:
  assumes "onGrid j r" "dyadic j pw" "dyadic j ph" "dyadic j k"
  shows "\<forall>n \<in> set (splitWith d r pw ph k). onGrid j n"
  using assms
  by (auto simp add: splitWith_def Let_def onGrid_def dyadic_add dyadic_diff)

lemma guillotineSplitD_exact:
  assumes j: "j \<le> 1074"
    and g: "onGrid j r" "dyadic j pw" "dyadic j ph" "dyadic j k"
    and k: "0 \<le> k"
    and p: "0 \<le> pw" "pw \<le> rect_width r" "0 \<le> ph" "ph \<le> rect_height r"
    and pos: "0 \<le> rect_x r" "0 \<le> rect_y r"
    and bw: "rect_x r + rect_width r + k < 2 ^ 53 / 2 ^ j"
    and bh: "rect_y r + rect_height r + k < 2 ^ 53 / 2 ^ j"
  shows "guillotineSplitD r pw ph k = splitWith True r pw ph k
       \<or> guillotineSplitD r pw ph k = splitWith False r pw ph k"
proof -
  from g(1) have gx: "dyadic j (rect_x r)" and gy: "dyadic j (rect_y r)"
    and gw: "dyadic j (rect_width r)" and gh: "dyadic j (rect_height r)"
    by (simp_all add: onGrid_def)
  have w1: "fl (rect_width r - pw) = rect_width r - pw"
    using p pos k bw by (intro fl_diff_exact [OF gw g(2) j]) simp
  have w2: "fl (rect_width r - pw - k) = rect_width r - pw - k"
    using p pos k bw by (intro fl_diff_exact [OF dyadic_diff [OF gw g(2)] g(4) j]) simp
  have h1: "fl (rect_height r - ph) = rect_height r - ph"
    using p pos k bh by (intro fl_diff_exact [OF gh g(3) j]) simp
  have h2: "fl (rect_height r - ph - k) = rect_height r - ph - k"
    using p pos k bh by (intro fl_diff_exact [OF dyadic_diff [OF gh g(3)] g(4) j]) simp
  have x1: "fl (rect_x r + pw) = rect_x r + pw"
    using p pos k bw by (intro fl_add_exact [OF gx g(2) j]) simp
  have x2: "fl (rect_x r + pw + k) = rect_x r + pw + k"
    using p pos k bw by (intro fl_add_exact [OF dyadic_add [OF gx g(2)] g(4) j]) simp
  have y1: "fl (rect_y r + ph) = rect_y r + ph"
    using p pos k bh by (intro fl_add_exact [OF gy g(3) j]) simp
  have y2: "fl (rect_y r + ph + k) = rect_y r + ph + k"
    using p pos k bh by (intro fl_add_exact [OF dyadic_add [OF gy g(3)] g(4) j]) simp
  show ?thesis
    unfolding guillotineSplitD_def splitWith_def w1 w2 h1 h2 x1 x2 y1 y2
    by (simp add: Let_def)
qed

lemma findBestFitFromD_Some:
  "findBestFitFromD w h rot i rects best = Some fit \<Longrightarrow>
     best = Some fit \<or>
     (i \<le> rectIndex fit \<and> rectIndex fit < i + length rects
        \<and> fits rot w h fit (rects ! (rectIndex fit - i)))"
proof (induction rects arbitrary: i best)
  case Nil
  then show ?case by simp
next
  case (Cons rect rest)
  let ?l = "fl (fl (rect_width rect * rect_height rect) - fl (w * h))"
  let ?b1 = "if w \<le> rect_width rect \<and> h \<le> rect_height rect \<and> improves best ?l
             then Some \<lparr>rectIndex = i, fit_rotated = False, leftover = ?l\<rparr> else best"
  let ?b2 = "if rot \<and> h \<le> rect_width rect \<and> w \<le> rect_height rect \<and> improves ?b1 ?l
             then Some \<lparr>rectIndex = i, fit_rotated = True, leftover = ?l\<rparr> else ?b1"
  from Cons.prems have run: "findBestFitFromD w h rot (Suc i) rest ?b2 = Some fit"
    by (simp add: Let_def)
  from Cons.IH [OF run] consider
      (same) "?b2 = Some fit"
    | (later) "Suc i \<le> rectIndex fit" "rectIndex fit < Suc i + length rest"
        "fits rot w h fit (rest ! (rectIndex fit - Suc i))"
    by blast
  then show ?case
  proof cases
    case same
    then show ?thesis
      by (auto simp add: fits_def split: if_splits)
  next
    case later
    then have "(rect # rest) ! (rectIndex fit - i) = rest ! (rectIndex fit - Suc i)"
      by (simp add: nth_Cons split: nat.split) (metis Suc_diff_Suc Suc_le_lessD nat.inject)
    with later show ?thesis by simp
  qed
qed

lemma findBestFitD_Some:
  assumes "findBestFitD w h k rects rot = Some fit"
  shows "rectIndex fit < length rects \<and> fits rot w h fit (rects ! rectIndex fit)"
  using findBestFitFromD_Some [of w h rot 0 rects None fit] assms
  by (simp add: findBestFitD_def)
lemma place_packInv:
  assumes inv: "packInv S st"
    and n: "n < length (freeRects st)"
    and fp: "footprint p = \<lparr>rect_x = rect_x (freeRects st ! n), rect_y = rect_y (freeRects st ! n),
                             rect_width = pw, rect_height = ph\<rparr>"
    and pw: "pw \<le> rect_width (freeRects st ! n)"
    and ph: "ph \<le> rect_height (freeRects st ! n)"
    and newin: "\<forall>x \<in> set new. rectInside (freeRects st ! n) x"
    and newp: "sorted_wrt (\<lambda>a b. \<not> rectsOverlap a b) new"
    and newsep: "\<forall>x \<in> set new. \<not> rectsOverlap (footprint p) x"
  shows "packInv S (st\<lparr>st_placements := st_placements st @ [p],
                       freeRects := take n (freeRects st) @ new @ drop (Suc n) (freeRects st)\<rparr>)"
proof -
  let ?fr = "freeRects st"
  let ?r = "?fr ! n"
  let ?fr' = "take n ?fr @ new @ drop (Suc n) ?fr"
  have rmem: "?r \<in> set ?fr" using n by simp
  have rS: "rectInside S ?r" using inv rmem by (simp add: packInv_def)
  have pin: "rectInside ?r (footprint p)"
    using pw ph by (simp add: fp rectInside_def)
  have old: "set (take n ?fr) \<union> set (drop (Suc n) ?fr) \<subseteq> set ?fr"
    using set_take_subset set_drop_subset by (metis Un_least)
  have frsplit: "?fr = take n ?fr @ [?r] @ drop (Suc n) ?fr"
    using n by (simp add: id_take_nth_drop)
  have swfr: "sorted_wrt (\<lambda>a b. \<not> rectsOverlap a b) (take n ?fr @ [?r] @ drop (Suc n) ?fr)"
    using inv frsplit by (simp add: packInv_def)
  have oldsep: "\<forall>x \<in> set (take n ?fr) \<union> set (drop (Suc n) ?fr). \<not> rectsOverlap (footprint p) x"
  proof
    fix x assume x: "x \<in> set (take n ?fr) \<union> set (drop (Suc n) ?fr)"
    have "\<not> rectsOverlap ?r x"
      using swfr x by (auto simp add: sorted_wrt_append rectsOverlap_sym [of ?r])
    then show "\<not> rectsOverlap (footprint p) x"
      using pin sep_inside_left by blast
  qed
  have c1: "\<forall>f \<in> set ?fr'. rectInside S f"
  proof
    fix f assume "f \<in> set ?fr'"
    then consider "f \<in> set ?fr" | "f \<in> set new" using old by auto
    then show "rectInside S f"
    proof cases
      case 1 then show ?thesis using inv by (simp add: packInv_def)
    next
      case 2 then show ?thesis using newin rS rectInside_trans by blast
    qed
  qed
  have c2: "\<forall>q \<in> set (st_placements st @ [p]). rectInside S (footprint q)"
    using inv rS pin rectInside_trans by (auto simp add: packInv_def)
  have c3: "sorted_wrt (\<lambda>a b. \<not> rectsOverlap a b) ?fr'"
    using splice_pairwise [OF _ n newin newp] inv by (simp add: packInv_def)
  have oldp: "\<forall>q \<in> set (st_placements st). \<not> rectsOverlap (footprint q) ?r"
    using inv rmem by (simp add: packInv_def)
  have c4: "sorted_wrt (\<lambda>a b. \<not> rectsOverlap a b) (map footprint (st_placements st @ [p]))"
  proof -
    have "\<forall>q \<in> set (st_placements st). \<not> rectsOverlap (footprint q) (footprint p)"
      using oldp pin sep_inside_right by blast
    then show ?thesis
      using inv by (simp add: packInv_def sorted_wrt_append)
  qed
  have c5: "\<forall>f \<in> set ?fr'. \<forall>q \<in> set (st_placements st @ [p]). \<not> rectsOverlap (footprint q) f"
  proof (intro ballI)
    fix f q assume f: "f \<in> set ?fr'" and q: "q \<in> set (st_placements st @ [p])"
    from q consider (oldq) "q \<in> set (st_placements st)" | (newq) "q = p" by auto
    then show "\<not> rectsOverlap (footprint q) f"
    proof cases
      case oldq
      from f consider "f \<in> set ?fr" | "f \<in> set new" using old by auto
      then show ?thesis
      proof cases
        case 1 then show ?thesis using inv oldq by (simp add: packInv_def)
      next
        case 2
        then show ?thesis using oldp oldq newin sep_inside_right by blast
      qed
    next
      case newq
      from f have "f \<in> set (take n ?fr) \<union> set (drop (Suc n) ?fr) \<or> f \<in> set new" by auto
      then show ?thesis using oldsep newsep newq by blast
    qed
  qed
  show ?thesis
    unfolding packInv_def using c1 c2 c3 c4 c5 by simp
qed

lemma fillStepD_gridInv:
  assumes inv: "gridInv j sheet st"
    and j: "j \<le> 1074"
    and k: "0 \<le> k" "dyadic j k"
    and bw: "\<bar>sheet_width sheet\<bar> + k < 2 ^ 53 / 2 ^ j"
    and bh: "\<bar>sheet_height sheet\<bar> + k < 2 ^ 53 / 2 ^ j"
    and item: "gridItem j item"
  shows "gridInv j sheet (fillStepD k rot st item)"
proof (cases "findBestFitD (ep_width item) (ep_height item) k (freeRects st) rot")
  case None
  then show ?thesis using inv by (simp add: fillStepD_def gridInv_def packInv_def)
next
  case (Some fit)
  let ?fr = "freeRects st"
  let ?n = "rectIndex fit"
  let ?r = "?fr ! ?n"
  let ?pw = "if fit_rotated fit then ep_height item else ep_width item"
  let ?ph = "if fit_rotated fit then ep_width item else ep_height item"
  let ?p = "\<lparr>placed_piece = ep_piece item, placed_x = rect_x ?r, placed_y = rect_y ?r,
             rotated = fit_rotated fit\<rparr>"
  let ?new = "guillotineSplitD ?r ?pw ?ph k"
  from inv have pinv: "packInv (sheetRect sheet) st"
    and grid: "\<forall>f \<in> set ?fr. onGrid j f" by (simp_all add: gridInv_def)
  from item have w: "0 \<le> ep_width item" and h: "0 \<le> ep_height item"
    and ep: "width (ep_piece item) = ep_width item" "height (ep_piece item) = ep_height item"
    and gi: "dyadic j (ep_width item)" "dyadic j (ep_height item)"
    by (simp_all add: gridItem_def wellFormedItem_def)
  from findBestFitD_Some [OF Some] have n: "?n < length ?fr"
    and fit: "fits rot (ep_width item) (ep_height item) fit ?r" by simp_all
  have pw: "0 \<le> ?pw" "?pw \<le> rect_width ?r" and ph: "0 \<le> ?ph" "?ph \<le> rect_height ?r"
    using fit w h by (auto simp add: fits_def split: if_splits)
  have gp: "dyadic j ?pw" "dyadic j ?ph" using gi by simp_all
  have rmem: "?r \<in> set ?fr" using n by simp
  have rg: "onGrid j ?r" using grid rmem by blast
  have rS: "rectInside (sheetRect sheet) ?r" using pinv rmem by (simp add: packInv_def)
  then have pos: "0 \<le> rect_x ?r" "0 \<le> rect_y ?r"
    and le: "rect_x ?r + rect_width ?r \<le> sheet_width sheet"
            "rect_y ?r + rect_height ?r \<le> sheet_height sheet"
    by (simp_all add: rectInside_def sheetRect_def)
  have b1: "rect_x ?r + rect_width ?r + k < 2 ^ 53 / 2 ^ j" using le(1) bw by linarith
  have b2: "rect_y ?r + rect_height ?r + k < 2 ^ 53 / 2 ^ j" using le(2) bh by linarith
  from guillotineSplitD_exact [OF j rg gp k(2) k(1) pw ph pos b1 b2]
  obtain d where new: "?new = splitWith d ?r ?pw ?ph k" by blast
  have fp: "footprint ?p = \<lparr>rect_x = rect_x ?r, rect_y = rect_y ?r,
                             rect_width = ?pw, rect_height = ?ph\<rparr>"
    using ep by (simp add: footprint_def placedWidth_def placedHeight_def)
  have newin: "\<forall>x \<in> set ?new. rectInside ?r x"
    unfolding new using splitWith_inside [OF k(1) pw(1) ph(1) pw(2) ph(2)] .
  have newp: "sorted_wrt (\<lambda>a b. \<not> rectsOverlap a b) ?new"
    unfolding new using splitWith_pairwise [OF k(1)] .
  have newsep: "\<forall>x \<in> set ?new. \<not> rectsOverlap (footprint ?p) x"
    unfolding new fp using splitWith_sep_piece [OF k(1)] .
  have newg: "\<forall>x \<in> set ?new. onGrid j x"
    unfolding new using splitWith_onGrid [OF rg gp k(2)] .
  let ?fr' = "take ?n ?fr @ ?new @ drop (Suc ?n) ?fr"
  have st': "fillStepD k rot st item
      = st\<lparr>st_placements := st_placements st @ [?p], freeRects := ?fr'\<rparr>"
    using Some n by (simp add: fillStepD_def Let_def)
  have p': "packInv (sheetRect sheet) (st\<lparr>st_placements := st_placements st @ [?p], freeRects := ?fr'\<rparr>)"
    using place_packInv [OF pinv n fp pw(2) ph(2) newin newp newsep] .
  have "\<forall>f \<in> set ?fr'. onGrid j f"
  proof
    fix f assume "f \<in> set ?fr'"
    then have "f \<in> set ?fr \<or> f \<in> set ?new"
      using set_take_subset [of ?n ?fr] set_drop_subset [of "Suc ?n" ?fr] by auto
    then show "onGrid j f" using grid newg by blast
  qed
  then show ?thesis
    unfolding st' gridInv_def using p' by simp
qed

lemma foldl_fillStepD_gridInv:
  assumes "gridInv j sheet st" "j \<le> 1074" "0 \<le> k" "dyadic j k"
    and "\<bar>sheet_width sheet\<bar> + k < 2 ^ 53 / 2 ^ j"
    and "\<bar>sheet_height sheet\<bar> + k < 2 ^ 53 / 2 ^ j"
    and "\<forall>item \<in> set items. gridItem j item"
  shows "gridInv j sheet (foldl (fillStepD k rot) st items)"
  using assms
proof (induction items arbitrary: st)
  case Nil
  then show ?case by simp
next
  case (Cons a items)
  have "gridInv j sheet (fillStepD k rot st a)"
    using Cons.prems by (intro fillStepD_gridInv) simp_all
  then show ?case using Cons by simp
qed

lemma initialState_gridInv:
  assumes "dyadic j (sheet_width sheet)" "dyadic j (sheet_height sheet)"
  shows "gridInv j sheet (initialState sheet)"
  using assms initialState_packInv [of sheet]
  by (simp add: gridInv_def initialState_def onGrid_def)

lemma fillSheetD_layout:
  assumes "j \<le> 1074" "0 \<le> k" "dyadic j k"
    and "dyadic j (sheet_width sheet)" "dyadic j (sheet_height sheet)"
    and "\<bar>sheet_width sheet\<bar> + k < 2 ^ 53 / 2 ^ j"
    and "\<bar>sheet_height sheet\<bar> + k < 2 ^ 53 / 2 ^ j"
    and "\<forall>item \<in> set items. gridItem j item"
  shows "layoutOK sheet (buildLayoutD sheet (fr_placements (fillSheetD items sheet k rot)))"
proof -
  have "gridInv j sheet (foldl (fillStepD k rot) (initialState sheet) items)"
    using assms by (intro foldl_fillStepD_gridInv initialState_gridInv) simp_all
  then show ?thesis
    by (simp add: layoutOK_def buildLayoutD_def fillSheetD_def Let_def gridInv_def packInv_def
        list_all_iff)
qed

lemma foldl_fillStepD_remaining_subset:
  "set (st_remaining (foldl (fillStepD k rot) st items)) \<subseteq> set (st_remaining st) \<union> set items"
proof (induction items arbitrary: st)
  case Nil
  show ?case by simp
next
  case (Cons a items)
  have "set (st_remaining (fillStepD k rot st a)) \<subseteq> set (st_remaining st) \<union> {a}"
    by (auto simp add: fillStepD_def Let_def split: option.split)
  with Cons.IH [of "fillStepD k rot st a"] show ?case by auto
qed

lemma fillSheetD_remaining_subset:
  "set (fr_remaining (fillSheetD items sheet k rot)) \<subseteq> set items"
  using foldl_fillStepD_remaining_subset [of k rot "initialState sheet" items]
  by (simp add: fillSheetD_def Let_def initialState_def)

lemma packLoopD_all:
  assumes "list_all P layouts"
    and "\<forall>item \<in> set unplaced. Q item"
    and step: "\<And>items. \<forall>item \<in> set items. Q item \<Longrightarrow>
            P (buildLayoutD sheet (fr_placements (fillSheetD items sheet k rot)))"
  shows "list_all P (packLoopD layouts unplaced sheet k rot)"
  using assms
proof (induction layouts unplaced sheet k rot rule: packLoopD.induct)
  case (1 layouts unplaced sheet kerfW allowRotation)
  let ?r = "fillSheetD unplaced sheet kerfW allowRotation"
  have new: "P (buildLayoutD sheet (fr_placements ?r))"
    using "1.prems"(2,3) by blast
  have rem: "\<forall>item \<in> set (fr_remaining ?r). Q item"
    using fillSheetD_remaining_subset [of unplaced sheet kerfW allowRotation] "1.prems"(2)
    by blast
  show ?case
  proof (cases "0 < length unplaced \<and> length (fr_placements ?r) \<noteq> 0
      \<and> length (fr_remaining ?r) \<noteq> length unplaced")
    case True
    have "list_all P (packLoopD (layouts @ [buildLayoutD sheet (fr_placements ?r)])
        (fr_remaining ?r) sheet kerfW allowRotation)"
      using True "1.prems"(1,3) new rem by (intro "1.IH") simp_all
    then show ?thesis
      using True by (subst packLoopD.simps) simp
  next
    case False
    then show ?thesis
      using "1.prems"(1) new by (subst packLoopD.simps) auto
  qed
qed

lemma packPiecesD_layoutOK:
  assumes "j \<le> 1074" "0 \<le> k" "dyadic j k"
    and "dyadic j (sheet_width sheet)" "dyadic j (sheet_height sheet)"
    and "\<bar>sheet_width sheet\<bar> + k < 2 ^ 53 / 2 ^ j"
    and "\<bar>sheet_height sheet\<bar> + k < 2 ^ 53 / 2 ^ j"
    and "\<forall>p \<in> set pieces. 0 \<le> width p \<and> 0 \<le> height p
            \<and> dyadic j (width p) \<and> dyadic j (height p)"
  shows "list_all (layoutOK sheet) (packPiecesD pieces sheet k rot)"
  unfolding packPiecesD_def Let_def
proof (rule packLoopD_all [where Q = "gridItem j"])
  show "list_all (layoutOK sheet) []" by simp
  show "\<forall>item \<in> set (sort_key (\<lambda>e. - fl (ep_width e * ep_height e)) (expandPieces pieces)).
          gridItem j item"
    using assms(8) by (auto simp add: expandPieces_def gridItem_def wellFormedItem_def)
  fix items assume "\<forall>item \<in> set items. gridItem j item"
  then show "layoutOK sheet (buildLayoutD sheet (fr_placements (fillSheetD items sheet k rot)))"
    using assms by (intro fillSheetD_layout [of j]) simp_all
qed
lemma shallow_drawer_pieces:
  "map (\<lambda>p. (wt_id (thickness p), width p, height p, quantity p))
     (getDrawerPieces
        (calculateDrawerBox ((makeRow ''r1'')\<lparr>openingHeight := 0.5\<rparr>)
           (makeColumn ''col-1'' [(makeRow ''r1'')\<lparr>openingHeight := 0.5\<rparr>]) shallowConfig)
        ((makeRow ''r1'')\<lparr>openingHeight := 0.5\<rparr>) shallowConfig)
   = [(''ply-1/2'', 18, - 0.25, 2), (''ply-1/2'', 12.0625, - 0.25, 1),
      (''ply-1/2'', 12.0625, - 0.25, 1), (''ply-1/4'', 12.625, 17.625, 1),
      (''ply-3/4'', 15.375, 0.5, 1)]"
  by (simp add: getDrawerPieces_def calculateDrawerBox_def shallowConfig_def makeConfig_def
      makeColumn_def makeRow_def PLY_3_4_def PLY_1_4_def PLY_1_2_def Let_def getDrawerWood_def
      orElse_def calculateDadoResult_def calculateFaceDimensions_def
      calculateOverlayFaceWidth_def calculateOverlayFaceHeight_def collectWarnings_def)

lemma negative_height_out_of_bounds:
  "(0::real) \<le> 0.125
   \<and> map (\<lambda>l. map (\<lambda>p. (placed_x p, placed_y p, placedWidth p, placedHeight p)) (placements l))
       (packPiecesD [makePiece 18 (- 0.25) 2, makePiece 12.0625 (- 0.25) 2]
          (makeSheet 48 96) 0.125 True)
     = [[(0, 0, 12.0625, - 0.25), (0, - 0.125, 12.0625, - 0.25),
         (0, - 0.25, 18, - 0.25), (0, - 0.375, 18, - 0.25)]]
   \<and> \<not> list_all (\<lambda>layout.
          list_all (\<lambda>p. 0 \<le> placed_x p \<and> 0 \<le> placed_y p
              \<and> placed_x p + placedWidth p \<le> sheet_width (makeSheet 48 96)
              \<and> placed_y p + placedHeight p \<le> sheet_height (makeSheet 48 96))
            (placements layout))
        (packPiecesD [makePiece 18 (- 0.25) 2, makePiece 12.0625 (- 0.25) 2]
          (makeSheet 48 96) 0.125 True)"
  by (simp add: packD_eval eval_nat_numeral)

lemma fl_tenth: "fl 0.1 = 3602879701896397 / 2 ^ 55"
proof -
  have "fl 0.1 = of_int (roundHalfEven (0.1 / pow2 (max (- 4 - 52) (- 1074))))
      * pow2 (max (- 4 - 52) (- 1074))"
    by (rule fl_eval) (simp_all add: pow2_def)
  also have "\<dots> = 3602879701896397 / 2 ^ 55"
    by (simp add: pow2_def roundHalfEven_def Let_def)
  finally show ?thesis .
qed

lemma fl_fifth: "fl 0.2 = 3602879701896397 / 2 ^ 54"
proof -
  have "fl 0.2 = of_int (roundHalfEven (0.2 / pow2 (max (- 3 - 52) (- 1074))))
      * pow2 (max (- 3 - 52) (- 1074))"
    by (rule fl_eval) (simp_all add: pow2_def)
  also have "\<dots> = 3602879701896397 / 2 ^ 54"
    by (simp add: pow2_def roundHalfEven_def Let_def)
  finally show ?thesis .
qed

lemma fl_two_fifths: "fl 0.4 = 3602879701896397 / 2 ^ 53"
proof -
  have "fl 0.4 = of_int (roundHalfEven (0.4 / pow2 (max (- 2 - 52) (- 1074))))
      * pow2 (max (- 2 - 52) (- 1074))"
    by (rule fl_eval) (simp_all add: pow2_def)
  also have "\<dots> = 3602879701896397 / 2 ^ 53"
    by (simp add: pow2_def roundHalfEven_def Let_def)
  finally show ?thesis .
qed

lemma fl_sum_tie:
  "fl (10808639105689191 / 36028797018963968) = 5404319552844596 / 2 ^ 54"
proof -
  have "fl (10808639105689191 / 36028797018963968)
      = of_int (roundHalfEven ((10808639105689191 / 36028797018963968)
            / pow2 (max (- 2 - 52) (- 1074))))
        * pow2 (max (- 2 - 52) (- 1074))"
    by (rule fl_eval) (simp_all add: pow2_def)
  also have "\<dots> = 5404319552844596 / 2 ^ 54"
    by (simp add: pow2_def roundHalfEven_def Let_def)
  finally show ?thesis .
qed

lemma fl_dyadic55: "dyadic 55 x \<Longrightarrow> \<bar>x\<bar> < 1 / 4 \<Longrightarrow> fl x = x"
  by (rule fl_exact [of 55]) simp_all

lemma fl_dyadic54: "dyadic 54 x \<Longrightarrow> \<bar>x\<bar> < 1 / 2 \<Longrightarrow> fl x = x"
  by (rule fl_exact [of 54]) simp_all

lemma fl_dyadic53: "dyadic 53 x \<Longrightarrow> \<bar>x\<bar> < 1 \<Longrightarrow> fl x = x"
  by (rule fl_exact [of 53]) simp_all

lemma decimal_fill:
  "fillSheetD
     [\<lparr>ep_piece = makePiece (fl 0.2) 1 1, ep_width = fl 0.2, ep_height = 1\<rparr>,
      \<lparr>ep_piece = makePiece (fl 0.1) 1 1, ep_width = fl 0.1, ep_height = 1\<rparr>]
     (makeSheet (fl 0.4) 1) (fl 0.1) False
   = \<lparr>fr_placements =
        [\<lparr>placed_piece = makePiece (fl 0.2) 1 1, placed_x = 0, placed_y = 0, rotated = False\<rparr>,
         \<lparr>placed_piece = makePiece (fl 0.1) 1 1, placed_x = 5404319552844596 / 2 ^ 54,
           placed_y = 0, rotated = False\<rparr>],
      fr_remaining = []\<rparr>"
  unfolding fl_tenth fl_fifth fl_two_fifths
  by (simp add: fillSheetD_def fillStepD_def
      initialState_def findBestFitD_def improves_def guillotineSplitD_def
      makePiece_def makeSheet_def Let_def
      fl_sum_tie fl_dyadic55 fl_dyadic54 fl_dyadic53 fl_dyadic20 dyadic_def)

lemma placements_buildLayoutD: "placements (buildLayoutD sheet ps) = ps"
  by (simp add: buildLayoutD_def Let_def)

lemma decimal_sorted:
  "sort_key (\<lambda>e. - fl (ep_width e * ep_height e))
     (expandPieces [makePiece (fl 0.2) 1 1, makePiece (fl 0.1) 1 1])
   = [\<lparr>ep_piece = makePiece (fl 0.2) 1 1, ep_width = fl 0.2, ep_height = 1\<rparr>,
      \<lparr>ep_piece = makePiece (fl 0.1) 1 1, ep_width = fl 0.1, ep_height = 1\<rparr>]"
  unfolding fl_tenth fl_fifth
  by (simp add: expandPieces_def makePiece_def fl_dyadic55 fl_dyadic54 dyadic_def)

lemma packPiecesD_decimal_layout:
  "packPiecesD [makePiece (fl 0.2) 1 1, makePiece (fl 0.1) 1 1]
      (makeSheet (fl 0.4) 1) (fl 0.1) False
   = [buildLayoutD (makeSheet (fl 0.4) 1)
        [\<lparr>placed_piece = makePiece (fl 0.2) 1 1, placed_x = 0, placed_y = 0, rotated = False\<rparr>,
         \<lparr>placed_piece = makePiece (fl 0.1) 1 1, placed_x = 5404319552844596 / 2 ^ 54,
           placed_y = 0, rotated = False\<rparr>]]"
  unfolding packPiecesD_def Let_def decimal_sorted
  apply (subst packLoopD.simps)
  unfolding decimal_fill
  apply (subst packLoopD.simps)
  apply simp
  done

lemma decimal_right_edge:
  "5404319552844596 / 2 ^ 54 + fl 0.1 > sheet_width (makeSheet (fl 0.4) 1)"
  unfolding fl_tenth fl_two_fifths by (simp add: makeSheet_def)

text \<open>
  Claim C4, as stated, fails in two ways. A piece list may hold pieces of negative height
  (the drawer sides, front and back of the chest above), and with a kerf of 0.125 on a
  48 x 96 sheet the packer places them at y = 0, -0.125, -0.25 and -0.375, outside the
  sheet's bounds. And with non-negative lengths that are not on a binary grid (pieces of
  width 0.2 and 0.1, a kerf of 0.1, a sheet of width 0.4, each the double of its literal)
  the second piece is placed at x = 0.30000000000000004, so that its right edge lies
  beyond the sheet's width by \<open>2 ^ -55\<close>.
\<close>

theorem C4_no_overlap_within_bounds_counterexample:
  "(0::real) \<le> 0.125
   \<and> \<not> list_all (\<lambda>layout.
          list_all (\<lambda>p. 0 \<le> placed_x p \<and> 0 \<le> placed_y p
              \<and> placed_x p + placedWidth p \<le> sheet_width (makeSheet 48 96)
              \<and> placed_y p + placedHeight p \<le> sheet_height (makeSheet 48 96))
            (placements layout))
        (packPiecesD [makePiece 18 (- 0.25) 2, makePiece 12.0625 (- 0.25) 2]
          (makeSheet 48 96) 0.125 True)
   \<and> (0::real) \<le> fl 0.1
   \<and> list_all (\<lambda>p. 0 \<le> width p \<and> 0 \<le> height p)
        [makePiece (fl 0.2) 1 1, makePiece (fl 0.1) 1 1]
   \<and> \<not> list_all (\<lambda>layout.
          list_all (\<lambda>p. 0 \<le> placed_x p \<and> 0 \<le> placed_y p
              \<and> placed_x p + placedWidth p \<le> sheet_width (makeSheet (fl 0.4) 1)
              \<and> placed_y p + placedHeight p \<le> sheet_height (makeSheet (fl 0.4) 1))
            (placements layout))
        (packPiecesD [makePiece (fl 0.2) 1 1, makePiece (fl 0.1) 1 1]
          (makeSheet (fl 0.4) 1) (fl 0.1) False)"
proof -
  have a: "\<not> list_all (\<lambda>layout.
          list_all (\<lambda>p. 0 \<le> placed_x p \<and> 0 \<le> placed_y p
              \<and> placed_x p + placedWidth p \<le> sheet_width (makeSheet 48 96)
              \<and> placed_y p + placedHeight p \<le> sheet_height (makeSheet 48 96))
            (placements layout))
        (packPiecesD [makePiece 18 (- 0.25) 2, makePiece 12.0625 (- 0.25) 2]
          (makeSheet 48 96) 0.125 True)"
    using negative_height_out_of_bounds by blast
  have k: "(0::real) \<le> fl 0.1" unfolding fl_tenth by simp
  have nn: "list_all (\<lambda>p. 0 \<le> width p \<and> 0 \<le> height p)
        [makePiece (fl 0.2) 1 1, makePiece (fl 0.1) 1 1]"
    unfolding fl_tenth fl_fifth by (simp add: makePiece_def)
  have b: "\<not> list_all (\<lambda>layout.
          list_all (\<lambda>p. 0 \<le> placed_x p \<and> 0 \<le> placed_y p
              \<and> placed_x p + placedWidth p \<le> sheet_width (makeSheet (fl 0.4) 1)
              \<and> placed_y p + placedHeight p \<le> sheet_height (makeSheet (fl 0.4) 1))
            (placements layout))
        (packPiecesD [makePiece (fl 0.2) 1 1, makePiece (fl 0.1) 1 1]
          (makeSheet (fl 0.4) 1) (fl 0.1) False)"
    unfolding packPiecesD_decimal_layout
    using decimal_right_edge
    by (simp add: placements_buildLayoutD placedWidth_def placedHeight_def makePiece_def)
  have k0: "(0::real) \<le> 0.125" by simp
  show ?thesis using k0 a k nn b by blast
qed

text \<open>
  Claim C4, amended. Let every piece width and height be non-negative, the kerf be
  non-negative, and all of them and the sheet's width and height be integer multiples of
  \<open>2 ^ -j\<close> (\<open>j \<le> 1074\<close>) with sheet width + kerf and sheet height + kerf below
  \<open>2 ^ (53 - j)\<close>, so that the packer's sums and differences are exact in doubles. Then
  for either rotation setting, in every layout that \<open>packPieces\<close> returns, every placed
  piece's footprint lies within the sheet's bounds and no two placed pieces overlap:
  their footprints, with rotated dimensions where flagged, have disjoint interiors.
\<close>

theorem C4_no_overlap_within_bounds_amended:
  assumes "j \<le> 1074"
    and "0 \<le> kerfW" and "dyadic j kerfW"
    and "dyadic j (sheet_width sheet)" and "dyadic j (sheet_height sheet)"
    and "\<bar>sheet_width sheet\<bar> + kerfW < 2 ^ 53 / 2 ^ j"
    and "\<bar>sheet_height sheet\<bar> + kerfW < 2 ^ 53 / 2 ^ j"
    and "list_all (\<lambda>p. 0 \<le> width p \<and> 0 \<le> height p
            \<and> dyadic j (width p) \<and> dyadic j (height p)) pieces"
  shows "list_all (\<lambda>layout.
      layout_sheet layout = sheet
      \<and> list_all (\<lambda>p. 0 \<le> placed_x p \<and> 0 \<le> placed_y p
            \<and> placed_x p + placedWidth p \<le> sheet_width sheet
            \<and> placed_y p + placedHeight p \<le> sheet_height sheet) (placements layout)
      \<and> (\<forall>i j. i < j \<and> j < length (placements layout) \<longrightarrow>
            \<not> rectsOverlap (footprint (placements layout ! i)) (footprint (placements layout ! j))
            \<and> interior (footprint (placements layout ! i))
                \<inter> interior (footprint (placements layout ! j)) = {}))
    (packPiecesD pieces sheet kerfW allowRotation)"
proof -
  have ok: "list_all (layoutOK sheet) (packPiecesD pieces sheet kerfW allowRotation)"
    using assms by (intro packPiecesD_layoutOK [of j]) (simp_all add: list_all_iff)
  have "layoutOK sheet layout \<Longrightarrow>
      layout_sheet layout = sheet
      \<and> list_all (\<lambda>p. 0 \<le> placed_x p \<and> 0 \<le> placed_y p
            \<and> placed_x p + placedWidth p \<le> sheet_width sheet
            \<and> placed_y p + placedHeight p \<le> sheet_height sheet) (placements layout)
      \<and> (\<forall>i j. i < j \<and> j < length (placements layout) \<longrightarrow>
            \<not> rectsOverlap (footprint (placements layout ! i)) (footprint (placements layout ! j))
            \<and> interior (footprint (placements layout ! i))
                \<inter> interior (footprint (placements layout ! j)) = {})" for layout
  proof -
    assume l: "layoutOK sheet layout"
    have a: "list_all (\<lambda>p. 0 \<le> placed_x p \<and> 0 \<le> placed_y p
            \<and> placed_x p + placedWidth p \<le> sheet_width sheet
            \<and> placed_y p + placedHeight p \<le> sheet_height sheet) (placements layout)"
      using l by (simp add: layoutOK_def list_all_iff rectInside_def sheetRect_def footprint_def)
    have b: "\<not> rectsOverlap (footprint (placements layout ! i)) (footprint (placements layout ! j))"
      if "i < j" "j < length (placements layout)" for i j
      using l that by (simp add: layoutOK_def sorted_wrt_iff_nth_less)
    show ?thesis
      using l a b sep_interior by (simp add: layoutOK_def)
  qed
  with ok show ?thesis
    unfolding list_all_iff by blast
qed

theorem C4_no_overlap_within_bounds_amended_witness:
  "(3::nat) \<le> 1074
   \<and> (0::real) \<le> 0.125 \<and> dyadic 3 0.125
   \<and> dyadic 3 (sheet_width (makeSheet 48 96)) \<and> dyadic 3 (sheet_height (makeSheet 48 96))
   \<and> \<bar>sheet_width (makeSheet 48 96)\<bar> + 0.125 < 2 ^ 53 / 2 ^ 3
   \<and> \<bar>sheet_height (makeSheet 48 96)\<bar> + 0.125 < 2 ^ 53 / 2 ^ 3
   \<and> list_all (\<lambda>p. 0 \<le> width p \<and> 0 \<le> height p \<and> dyadic 3 (width p) \<and> dyadic 3 (height p))
        [makePiece 20 30 3, makePiece 15 25 2]
   \<and> map (\<lambda>l. map (\<lambda>p. (placed_x p, placed_y p, placedWidth p, placedHeight p)) (placements l))
       (packPiecesD [makePiece 20 30 3, makePiece 15 25 2] (makeSheet 48 96) 0.125 True)
     = [[(0, 0, 20, 30), (20.125, 0, 20, 30), (0, 30.125, 20, 30), (0, 60.25, 15, 25),
         (20.125, 30.125, 15, 25)]]
   \<and> list_all (\<lambda>layout.
      layout_sheet layout = makeSheet 48 96
      \<and> list_all (\<lambda>p. 0 \<le> placed_x p \<and> 0 \<le> placed_y p
            \<and> placed_x p + placedWidth p \<le> sheet_width (makeSheet 48 96)
            \<and> placed_y p + placedHeight p \<le> sheet_height (makeSheet 48 96)) (placements layout)
      \<and> (\<forall>i j. i < j \<and> j < length (placements layout) \<longrightarrow>
            \<not> rectsOverlap (footprint (placements layout ! i)) (footprint (placements layout ! j))
            \<and> interior (footprint (placements layout ! i))
                \<inter> interior (footprint (placements layout ! j)) = {}))
    (packPiecesD [makePiece 20 30 3, makePiece 15 25 2] (makeSheet 48 96) 0.125 True)"
proof -
  have h1: "(3::nat) \<le> 1074" by simp
  have h2: "(0::real) \<le> 0.125" by simp
  have h3: "dyadic 3 0.125" by (simp add: dyadic_def)
  have h4: "dyadic 3 (sheet_width (makeSheet 48 96))" by (simp add: dyadic_def makeSheet_def)
  have h5: "dyadic 3 (sheet_height (makeSheet 48 96))" by (simp add: dyadic_def makeSheet_def)
  have h6: "\<bar>sheet_width (makeSheet 48 96)\<bar> + 0.125 < 2 ^ 53 / 2 ^ 3"
    by (simp add: makeSheet_def)
  have h7: "\<bar>sheet_height (makeSheet 48 96)\<bar> + 0.125 < 2 ^ 53 / 2 ^ 3"
    by (simp add: makeSheet_def)
  have h8: "list_all (\<lambda>p. 0 \<le> width p \<and> 0 \<le> height p \<and> dyadic 3 (width p) \<and> dyadic 3 (height p))
        [makePiece 20 30 3, makePiece 15 25 2]"
    by (simp add: makePiece_def dyadic_def)
  have ev: "map (\<lambda>l. map (\<lambda>p. (placed_x p, placed_y p, placedWidth p, placedHeight p)) (placements l))
       (packPiecesD [makePiece 20 30 3, makePiece 15 25 2] (makeSheet 48 96) 0.125 True)
     = [[(0, 0, 20, 30), (20.125, 0, 20, 30), (0, 30.125, 20, 30), (0, 60.25, 15, 25),
         (20.125, 30.125, 15, 25)]]"
    by (simp add: packD_eval eval_nat_numeral)
  show ?thesis
    using h1 h2 h3 h4 h5 h6 h7 h8 ev
      C4_no_overlap_within_bounds_amended [OF h1 h2 h3 h4 h5 h6 h7 h8, of True]
    by blast
qed

end
